theory Spec2Isabelle
  imports Complex_Main "HOL-Library.AList"
begin

section \<open>Data model\<close>

text \<open>
  A shallow embedding of the historical-data fetcher: \<^verbatim>\<open>IBUtils.py\<close>,
  \<^verbatim>\<open>IBApp.py\<close> and \<^verbatim>\<open>getHistoricalData.py\<close>.

  Conventions.
  \<^item> A \<^verbatim>\<open>datetime\<close> is an \<open>int\<close>: microseconds since the epoch. A
    \<^verbatim>\<open>timedelta\<close> is an \<open>int\<close> of microseconds.
  \<^item> Prices and strikes are Python floats in the source; here a float is the rational it
    denotes, and where the source computes with floats the result is rounded as a double
    is (\<open>round_double\<close>).
  \<^item> A Python \<^verbatim>\<open>dict\<close> is an association list in insertion order:
    \<open>map_of\<close> reads a key, \<open>AList.update\<close> stores one (in place when the key
    exists, at the end otherwise), \<open>AList.delete\<close> is \<^verbatim>\<open>del\<close>.
  \<^item> Every \<^verbatim>\<open>raise\<close> of the source, and every exception a missing key, a
    missing attribute or a bad index raises, is a value \<open>Inl e\<close>.
  \<^item> A loop that polls shared state consumes a schedule of \<open>tick\<close>s (what the clock,
    the connection and the response thread did during each \<^verbatim>\<open>time.sleep\<close>);
    the result \<open>None\<close> says the loop is still blocked when the schedule ends.
\<close>

datatype py_error =
  KeyError | IndexError | ValueError | AttributeError | ZeroDivisionError
  | UnknownReqId | UnknownOutputType | NoExpiryFound | OverflowError

definition then_do :: "'e + 'a \<Rightarrow> ('a \<Rightarrow> 'e + 'b) \<Rightarrow> 'e + 'b" where
  "then_do r f = (case r of Inl e \<Rightarrow> Inl e | Inr x \<Rightarrow> f x)"

text \<open>\<^verbatim>\<open>ibapi.contract.Contract\<close>: the fields the source reads or writes.\<close>

record Contract =
  symbol :: string
  secType :: string
  exchange :: string
  currency :: string
  strike :: rat
  right :: string
  lastTradeDateOrContractMonth :: string

text \<open>\<^verbatim>\<open>class DataRequest\<close> (IBApp.py 27-45).\<close>

record DataRequest =
  contract :: Contract
  query_time :: int
  interval_size :: int
  bid_or_ask :: string
  req_id :: int

text \<open>
  The bar delivered by the provider. \<open>date\<close> is the outcome of
  \<^verbatim>\<open>strptime(bar.date, '%Y%m%d  %H:%M:%S')\<close>: \<open>None\<close> when the text does not
  match (a \<^verbatim>\<open>ValueError\<close>), the hour, minute and second otherwise.
\<close>

record bar =
  date :: "(int \<times> int \<times> int) option"
  bar_open :: rat
  high :: rat
  low :: rat
  close :: rat

text \<open>\<^verbatim>\<open>class option_chain_data\<close> (IBApp.py 48-64). \<open>all_contracts\<close> maps a
  strike to a map from side to contract. It is a \<^verbatim>\<open>defaultdict\<close> until
  \<^verbatim>\<open>keep_close_strikes\<close> replaces it by an \<^verbatim>\<open>OrderedDict\<close>;
  \<open>is_defaultdict\<close> records which.\<close>

record option_chain_data =
  underline :: string
  open_spot_price :: rat
  all_contracts :: "(rat \<times> (string \<times> Contract) list) list"
  is_defaultdict :: bool
  all_contracts_fetched :: bool

definition new_option_chain_data :: "string \<Rightarrow> option_chain_data" where
  "new_option_chain_data u =
     \<lparr>underline = u, open_spot_price = -1, all_contracts = [], is_defaultdict = True,
      all_contracts_fetched = False\<rparr>"

text \<open>A value stored in a registry entry (the entry is a \<^verbatim>\<open>dict\<close> with string
  keys).\<close>

datatype pyval = VStr string | VNum rat | VTime int | VReq DataRequest

type_synonym entry = "(string \<times> pyval) list"

text \<open>A line handed to \<^verbatim>\<open>write_to_file\<close>: time of day, the instrument's
  discriminators, the side flag, and open, high, low, close.\<close>

datatype out_line =
  OptLine "int \<times> int \<times> int" rat string string rat rat rat rat
  | Line "int \<times> int \<times> int" string rat rat rat rat

text \<open>The calls made on the \<^verbatim>\<open>EClient\<close> connection, in order.\<close>

datatype request =
  ReqHistoricalData int Contract int int string string
  | ReqMktData int Contract
  | CancelMktData int
  | ReqContractDetails int Contract

datatype variant = OPT | STK | FX

text \<open>
  \<^verbatim>\<open>class IBapi\<close> (IBApp.py 67-83): \<open>cls\<close> is the concrete subclass. The last
  three fields are the environment the object lives in: the wall clock
  (\<^verbatim>\<open>datetime.now()\<close>), \<^verbatim>\<open>isConnected()\<close>, and the requests sent to the
  provider so far.
\<close>

record ibapi =
  cls :: variant
  output_type :: string
  output_file :: "out_line list option"
  option_chain_data :: "option_chain_data option"
  contracts_to_delete :: "(rat \<times> string list) list"
  req_id_to_contract :: "(int \<times> entry) list"
  open_requests :: int
  sent_time_queue :: "int list"
  mode :: string
  shift_hours :: int
  clock :: int
  connected :: bool
  requests :: "request list"

definition OPEN_SPOT_PRICE_REQ_ID :: int where
  "OPEN_SPOT_PRICE_REQ_ID = 1"

definition ALL_OPTION_CONTRACTS_DETAILS_REQ_ID :: int where
  "ALL_OPTION_CONTRACTS_DETAILS_REQ_ID = 2"

text \<open>\<^verbatim>\<open>IBapi.__init__\<close>, for the subclass \<open>c\<close>.\<close>

definition init_ibapi :: "variant \<Rightarrow> string \<Rightarrow> int \<Rightarrow> ibapi" where
  "init_ibapi c out now =
     \<lparr>cls = c, output_type = out, output_file = None, option_chain_data = None,
      contracts_to_delete = [], req_id_to_contract = [], open_requests = 0,
      sent_time_queue = [], mode = ''historical'', shift_hours = 0,
      clock = now, connected = False, requests = []\<rparr>"

section \<open>Correlation ids (IBUtils.py 100-109)\<close>

text \<open>
  \<^verbatim>\<open>randint(a, b)\<close> draws from the closed range: the model maps one number of an
  entropy stream into it, so every draw is in range whatever the stream holds.
\<close>

definition randint :: "int \<Rightarrow> int \<Rightarrow> nat \<Rightarrow> int" where
  "randint a b raw = a + int raw mod (b - a + 1)"

text \<open>
  \<^verbatim>\<open>while (req_id := randint(10, 99999)) in used_ids: continue\<close>. The loop draws
  until an id is free; \<open>None\<close> when the stream ends first (the loop has not returned).
\<close>

fun get_req_id :: "int list \<Rightarrow> nat list \<Rightarrow> (int \<times> nat list) option" where
  "get_req_id used_ids [] = None"
| "get_req_id used_ids (raw # rest) =
     (let req_id = randint 10 99999 raw
      in if req_id \<in> set used_ids then get_req_id used_ids rest else Some (req_id, rest))"

section \<open>Sending a request (IBApp.py 104-111, 245-257, 380-389, 422-435)\<close>

definition IBapi_send_historical_data_request :: "ibapi \<Rightarrow> DataRequest \<Rightarrow> ibapi" where
  "IBapi_send_historical_data_request s data_request =
     s\<lparr>sent_time_queue := sent_time_queue s @ [clock s],
       open_requests := open_requests s + 1\<rparr>"

definition req_historical :: "int \<Rightarrow> DataRequest \<Rightarrow> request" where
  "req_historical rid data_request =
     ReqHistoricalData rid (contract data_request) (query_time data_request)
       (interval_size data_request * 60) ''5 secs'' (bid_or_ask data_request)"

text \<open>\<^verbatim>\<open>OPT.send_historical_data_request\<close> and \<^verbatim>\<open>STK.send_historical_data_request\<close>
  differ in the \<^verbatim>\<open>secType\<close> string only.\<close>

definition tracked_send :: "string \<Rightarrow> ibapi \<Rightarrow> DataRequest \<Rightarrow> nat list
    \<Rightarrow> (ibapi \<times> DataRequest \<times> nat list) option" where
  "tracked_send sec s data_request rng =
     (let s1 = IBapi_send_historical_data_request s data_request
      in case get_req_id (map fst (req_id_to_contract s1)) rng of
           None \<Rightarrow> None
         | Some (rid, rng') \<Rightarrow>
             (let dr = data_request\<lparr>req_id := rid\<rparr>;
                  e = [(''secType'', VStr sec), (''data_request'', VReq dr),
                       (''time'', VTime (clock s1))]
              in Some (s1\<lparr>req_id_to_contract := AList.update rid e (req_id_to_contract s1),
                           requests := requests s1 @ [req_historical rid dr]\<rparr>, dr, rng')))"

text \<open>\<^verbatim>\<open>FX.send_historical_data_request\<close>: the probing loop is written out in the
  source (draw; while the id is in use, draw again), the entry has other keys, and the
  queue and the counter are updated after the request. The method ends with
  \<^verbatim>\<open>time.sleep(0.1)\<close>; what the response thread does during it is part of the
  schedule of whatever the caller runs next.\<close>

definition FX_send :: "ibapi \<Rightarrow> DataRequest \<Rightarrow> nat list
    \<Rightarrow> (ibapi \<times> DataRequest \<times> nat list) option" where
  "FX_send s data_request rng =
     (case get_req_id (map fst (req_id_to_contract s)) rng of
        None \<Rightarrow> None
      | Some (rid, rng') \<Rightarrow>
          (let e = [(''secType'', VStr ''FX''), (''strike'', VNum 0),
                    (''bidOrAsk'', VStr (bid_or_ask data_request)),
                    (''callOrPut'', VStr ''F''), (''time'', VTime (clock s))];
               s1 = s\<lparr>req_id_to_contract := AList.update rid e (req_id_to_contract s),
                      requests := requests s @ [req_historical rid data_request]\<rparr>
           in Some (s1\<lparr>sent_time_queue := sent_time_queue s1 @ [clock s1],
                        open_requests := open_requests s1 + 1\<rparr>, data_request, rng')))"

definition send_historical_data_request :: "ibapi \<Rightarrow> DataRequest \<Rightarrow> nat list
    \<Rightarrow> (ibapi \<times> DataRequest \<times> nat list) option" where
  "send_historical_data_request s data_request rng =
     (case cls s of
        OPT \<Rightarrow> tracked_send ''OPT'' s data_request rng
      | STK \<Rightarrow> tracked_send ''STK'' s data_request rng
      | FX \<Rightarrow> FX_send s data_request rng)"

section \<open>The response handlers (IBApp.py 90-99, 113-173, 259-282, 391-405, 437-451)\<close>

text \<open>\<^verbatim>\<open>entry[key]\<close>: a \<^verbatim>\<open>KeyError\<close> when the key is missing.\<close>

definition getitem :: "('k \<times> 'v) list \<Rightarrow> 'k \<Rightarrow> py_error + 'v" where
  "getitem d k = (case map_of d k of None \<Rightarrow> Inl KeyError | Some v \<Rightarrow> Inr v)"

text \<open>\<^verbatim>\<open>entry["data_request"]\<close>, then an attribute of the request read from it.\<close>

definition entry_data_request :: "entry \<Rightarrow> py_error + DataRequest" where
  "entry_data_request e =
     then_do (getitem e ''data_request'')
       (\<lambda>v. case v of VReq dr \<Rightarrow> Inr dr | _ \<Rightarrow> Inl AttributeError)"

text \<open>The body of the abstract \<^verbatim>\<open>IBapi.historicalData\<close>, run by every subclass
  through \<^verbatim>\<open>super()\<close>: parse the bar's date and shift its hour
  (\<^verbatim>\<open>datetime.replace\<close> raises \<^verbatim>\<open>ValueError\<close> outside 0..23).\<close>

definition IBapi_historicalData :: "ibapi \<Rightarrow> int \<Rightarrow> bar \<Rightarrow> py_error + bar" where
  "IBapi_historicalData s rid b =
     (case date b of
        None \<Rightarrow> Inl ValueError
      | Some (h, m, sec) \<Rightarrow>
          if 0 \<le> h - shift_hours s \<and> h - shift_hours s \<le> 23
          then Inr (b\<lparr>date := Some (h - shift_hours s, m, sec)\<rparr>)
          else Inl ValueError)"

definition bar_time :: "bar \<Rightarrow> int \<times> int \<times> int" where
  "bar_time b = (case date b of None \<Rightarrow> (0, 0, 0) | Some t \<Rightarrow> t)"

definition write_to_file :: "ibapi \<Rightarrow> out_line \<Rightarrow> py_error + ibapi" where
  "write_to_file s l =
     (if output_type s = ''bin'' \<or> output_type s = ''txt''
      then (case output_file s of
              None \<Rightarrow> Inl AttributeError
            | Some f \<Rightarrow> Inr (s\<lparr>output_file := Some (f @ [l])\<rparr>))
      else Inl UnknownOutputType)"

definition side_flag :: "DataRequest \<Rightarrow> string" where
  "side_flag dr = (if bid_or_ask dr = ''ASK'' then ''S'' else ''B'')"

definition OPT_historicalData :: "ibapi \<Rightarrow> int \<Rightarrow> bar \<Rightarrow> py_error + ibapi" where
  "OPT_historicalData s rid b0 =
     then_do (IBapi_historicalData s rid b0) (\<lambda>b.
       if rid = OPEN_SPOT_PRICE_REQ_ID
       then (case option_chain_data s of
               None \<Rightarrow> Inl AttributeError
             | Some ocd \<Rightarrow>
                 Inr (s\<lparr>option_chain_data := Some (ocd\<lparr>open_spot_price := close b\<rparr>)\<rparr>))
       else (case map_of (req_id_to_contract s) rid of
               Some e \<Rightarrow>
                 then_do (entry_data_request e) (\<lambda>dr.
                   write_to_file s
                     (OptLine (bar_time b) (strike (contract dr)) (right (contract dr))
                        (side_flag dr) (bar_open b) (high b) (low b) (close b)))
             | None \<Rightarrow> Inl UnknownReqId))"

text \<open>\<^verbatim>\<open>STK.historicalData\<close> and \<^verbatim>\<open>FX.historicalData\<close> have the same body.\<close>

definition plain_historicalData :: "ibapi \<Rightarrow> int \<Rightarrow> bar \<Rightarrow> py_error + ibapi" where
  "plain_historicalData s rid b0 =
     then_do (IBapi_historicalData s rid b0) (\<lambda>b.
       case map_of (req_id_to_contract s) rid of
         Some e \<Rightarrow>
           then_do (entry_data_request e) (\<lambda>dr.
             write_to_file s
               (Line (bar_time b) (side_flag dr) (bar_open b) (high b) (low b) (close b)))
       | None \<Rightarrow> Inl UnknownReqId)"

definition historicalData :: "ibapi \<Rightarrow> int \<Rightarrow> bar \<Rightarrow> py_error + ibapi" where
  "historicalData s rid b =
     (case cls s of
        OPT \<Rightarrow> OPT_historicalData s rid b
      | STK \<Rightarrow> plain_historicalData s rid b
      | FX \<Rightarrow> plain_historicalData s rid b)"

text \<open>\<^verbatim>\<open>IBapi.historicalDataEnd\<close>: the entry's \<^verbatim>\<open>'time'\<close> and
  \<^verbatim>\<open>"data_request"\<close> are read for the log line before the entry is deleted.\<close>

definition historicalDataEnd :: "ibapi \<Rightarrow> int \<Rightarrow> py_error + ibapi" where
  "historicalDataEnd s rid =
     (case map_of (req_id_to_contract s) rid of
        Some e \<Rightarrow>
          then_do (getitem e ''time'') (\<lambda>t.
          then_do (entry_data_request e) (\<lambda>data_req.
            Inr (s\<lparr>req_id_to_contract := AList.delete rid (req_id_to_contract s),
                   open_requests := open_requests s - 1\<rparr>)))
      | None \<Rightarrow>
          if rid = OPEN_SPOT_PRICE_REQ_ID then Inr s else Inl UnknownReqId)"

text \<open>\<^verbatim>\<open>all_contracts[strike][right] = contract\<close>: a \<^verbatim>\<open>defaultdict\<close> makes the
  missing strike, an \<^verbatim>\<open>OrderedDict\<close> raises.\<close>

definition contractDetails :: "ibapi \<Rightarrow> int \<Rightarrow> Contract \<Rightarrow> py_error + ibapi" where
  "contractDetails s rid c =
     (if rid = ALL_OPTION_CONTRACTS_DETAILS_REQ_ID
      then (case option_chain_data s of
              None \<Rightarrow> Inl AttributeError
            | Some ocd \<Rightarrow>
                (case map_of (all_contracts ocd) (strike c) of
                   None \<Rightarrow>
                     if is_defaultdict ocd
                     then Inr (s\<lparr>option_chain_data := Some (ocd\<lparr>all_contracts :=
                            AList.update (strike c) [(right c, c)] (all_contracts ocd)\<rparr>)\<rparr>)
                     else Inl KeyError
                 | Some sides \<Rightarrow>
                     Inr (s\<lparr>option_chain_data := Some (ocd\<lparr>all_contracts :=
                            AList.update (strike c) (AList.update (right c) c sides)
                              (all_contracts ocd)\<rparr>)\<rparr>)))
      else Inr s)"

definition contractDetailsEnd :: "ibapi \<Rightarrow> int \<Rightarrow> py_error + ibapi" where
  "contractDetailsEnd s rid =
     (if rid = ALL_OPTION_CONTRACTS_DETAILS_REQ_ID
      then (case option_chain_data s of
              None \<Rightarrow> Inl AttributeError
            | Some ocd \<Rightarrow> Inr (s\<lparr>option_chain_data := Some (ocd\<lparr>all_contracts_fetched := True\<rparr>)\<rparr>))
      else Inr s)"

text \<open>\<^verbatim>\<open>str.split(sep)\<close> for a one-character separator.\<close>

fun split_on :: "char \<Rightarrow> string \<Rightarrow> string list" where
  "split_on c [] = [[]]"
| "split_on c (x # xs) =
     (if x = c then [] # split_on c xs
      else (case split_on c xs of [] \<Rightarrow> [[x]] | w # ws \<Rightarrow> (x # w) # ws))"

text \<open>\<^verbatim>\<open>contracts_to_delete[strike].append(side)\<close> on a
  \<^verbatim>\<open>defaultdict(lambda: [])\<close>.\<close>

definition append_side :: "rat \<Rightarrow> string \<Rightarrow> (rat \<times> string list) list \<Rightarrow> (rat \<times> string list) list" where
  "append_side k side d =
     AList.update k ((case map_of d k of None \<Rightarrow> [] | Some sides \<Rightarrow> sides) @ [side]) d"

text \<open>\<^verbatim>\<open>IBapi.error\<close>. The \<^verbatim>\<open>and\<close> of the source reads the message only when the
  code is 162; \<^verbatim>\<open>split(':')[1]\<close> raises \<^verbatim>\<open>IndexError\<close> on a message without
  a colon.\<close>

definition error :: "ibapi \<Rightarrow> int \<Rightarrow> int \<Rightarrow> string \<Rightarrow> py_error + ibapi" where
  "error s rid error_code error_string =
     (if mode s = ''historical'' \<and> error_code \<in> set [2103, 2104, 2108, 2157, 2158]
      then Inr s
      else (case map_of (req_id_to_contract s) rid of
              None \<Rightarrow> Inr s
            | Some e \<Rightarrow>
                then_do (entry_data_request e) (\<lambda>dr.
                  if error_code = 162
                  then (case split_on CHR '':'' error_string of
                          a # b # rest \<Rightarrow>
                            if b = ''HMDS query returned no data''
                            then Inr (s\<lparr>contracts_to_delete :=
                                        append_side (strike (contract dr)) (right (contract dr))
                                          (contracts_to_delete s),
                                      open_requests := open_requests s - 1\<rparr>)
                            else Inr s
                        | _ \<Rightarrow> Inl IndexError)
                  else Inr s)))"

datatype event =
  HistoricalData int bar
  | HistoricalDataEnd int
  | ContractDetails int Contract
  | ContractDetailsEnd int
  | Error int int string

fun deliver :: "ibapi \<Rightarrow> event \<Rightarrow> py_error + ibapi" where
  "deliver s (HistoricalData rid b) = historicalData s rid b"
| "deliver s (HistoricalDataEnd rid) = historicalDataEnd s rid"
| "deliver s (ContractDetails rid c) = contractDetails s rid c"
| "deliver s (ContractDetailsEnd rid) = contractDetailsEnd s rid"
| "deliver s (Error rid code msg) = error s rid code msg"

text \<open>The response thread. Every handler above raises before it changes the object, so
  an event whose handler raises leaves the state as it was. In a run the exception ends
  the thread and closes the connection, so no later event is handled; here the thread
  goes on to the next event of the schedule. The schedules of this model therefore
  include every run (one whose ticks carry no event and no connection after the
  raise) and more.\<close>

definition dispatch :: "ibapi \<Rightarrow> event \<Rightarrow> ibapi" where
  "dispatch s ev = (case deliver s ev of Inl e \<Rightarrow> s | Inr s' \<Rightarrow> s')"

text \<open>One \<^verbatim>\<open>time.sleep\<close> of the orchestration thread: the clock and the connection
  seen after it, and the events the response thread handled meanwhile.\<close>

record tick =
  t_now :: int
  t_connected :: bool
  t_events :: "event list"

definition sleep :: "ibapi \<Rightarrow> tick \<Rightarrow> ibapi" where
  "sleep s t = foldl dispatch (s\<lparr>clock := t_now t, connected := t_connected t\<rparr>) (t_events t)"

section \<open>Time arithmetic\<close>

text \<open>\<^verbatim>\<open>timedelta(minutes=n)\<close>, and \<^verbatim>\<open>timedelta.seconds\<close>: the seconds field of
  the normalised difference, which is between 0 and 86399 whatever the number of days.\<close>

definition minutes :: "int \<Rightarrow> int" where
  "minutes n = n * 60000000"

definition td_seconds :: "int \<Rightarrow> int" where
  "td_seconds d = (d div 1000000) mod 86400"

definition hour :: "int \<Rightarrow> int" where
  "hour t = (t mod 86400000000) div 3600000000"

definition minute :: "int \<Rightarrow> int" where
  "minute t = (t mod 3600000000) div 60000000"

text \<open>\<^verbatim>\<open>d.replace(hour=h, minute=m)\<close>: the day, the seconds and the microseconds of
  \<open>d\<close> are kept.\<close>

definition replace_hm :: "int \<Rightarrow> int \<Rightarrow> int \<Rightarrow> int" where
  "replace_hm d h m = d - d mod 86400000000 + h * 3600000000 + m * 60000000 + d mod 60000000"

text \<open>\<^verbatim>\<open>d.date()\<close>, as a day number.\<close>

definition date_of :: "int \<Rightarrow> int" where
  "date_of d = d div 86400000000"

section \<open>The pacing gate (getHistoricalData.py 16-33)\<close>

fun wait_connected :: "ibapi \<Rightarrow> tick list \<Rightarrow> (ibapi \<times> tick list) option" where
  "wait_connected s [] = (if \<not> connected s then None else Some (s, []))"
| "wait_connected s (t # rest) =
     (if \<not> connected s then wait_connected (sleep s t) rest else Some (s, t # rest))"

text \<open>The body of the second loop before its sleep: the head of the queue is popped when
  it is more than ten minutes old. The loop runs on a queue of more than 58 entries, so
  \<^verbatim>\<open>sent_time_queue[0]\<close> exists.\<close>

definition pop_if_old :: "ibapi \<Rightarrow> ibapi" where
  "pop_if_old s =
     (case sent_time_queue s of
        [] \<Rightarrow> s
      | first # others \<Rightarrow>
          if td_seconds (clock s - first) > 600 then s\<lparr>sent_time_queue := others\<rparr> else s)"

fun trim_queue :: "ibapi \<Rightarrow> tick list \<Rightarrow> (ibapi \<times> tick list) option" where
  "trim_queue s [] = (if length (sent_time_queue s) > 58 then None else Some (s, []))"
| "trim_queue s (t # rest) =
     (if length (sent_time_queue s) > 58 then trim_queue (sleep (pop_if_old s) t) rest
      else Some (s, t # rest))"

fun wait_open :: "ibapi \<Rightarrow> tick list \<Rightarrow> (ibapi \<times> tick list) option" where
  "wait_open s [] = (if open_requests s > 49 then None else Some (s, []))"
| "wait_open s (t # rest) =
     (if open_requests s > 49 then wait_open (sleep s t) rest else Some (s, t # rest))"

definition check_pacing_violations :: "ibapi \<Rightarrow> tick list \<Rightarrow> (ibapi \<times> tick list) option" where
  "check_pacing_violations app ts =
     (case wait_connected app ts of
        None \<Rightarrow> None
      | Some (s1, ts1) \<Rightarrow>
          (case trim_queue s1 ts1 of
             None \<Rightarrow> None
           | Some (s2, ts2) \<Rightarrow> wait_open s2 ts2))"

text \<open>The entries of the queue that are at most ten minutes old at the clock's reading:
  the requests inside the provider's rolling window.\<close>

definition in_window :: "ibapi \<Rightarrow> int list" where
  "in_window s = filter (\<lambda>t. clock s - t \<le> minutes 10) (sent_time_queue s)"

section \<open>Pruning the option chain (IBApp.py 216-225, 322-334)\<close>

definition remove_sides :: "string list \<Rightarrow> (string \<times> Contract) list \<Rightarrow> (string \<times> Contract) list" where
  "remove_sides sides m =
     foldl (\<lambda>m side. if side \<in> fst ` set m then AList.delete side m else m) m sides"

definition remove_strike :: "(rat \<times> (string \<times> Contract) list) list \<Rightarrow> rat \<times> string list
    \<Rightarrow> (rat \<times> (string \<times> Contract) list) list" where
  "remove_strike ac p =
     (case map_of ac (fst p) of
        None \<Rightarrow> ac
      | Some m \<Rightarrow> AList.update (fst p) (remove_sides (snd p) m) ac)"

text \<open>\<^verbatim>\<open>IBapi.remove_contracts\<close>. \<^verbatim>\<open>self.option_chain_data.all_contracts\<close> is read
  inside the loop only, so an object without a chain fails only when a removal is
  queued.\<close>

definition remove_contracts :: "ibapi \<Rightarrow> py_error + ibapi" where
  "remove_contracts s =
     (case contracts_to_delete s of
        [] \<Rightarrow> Inr (s\<lparr>contracts_to_delete := []\<rparr>)
      | p # ps \<Rightarrow>
          (case option_chain_data s of
             None \<Rightarrow> Inl AttributeError
           | Some ocd \<Rightarrow>
               Inr (s\<lparr>option_chain_data :=
                        Some (ocd\<lparr>all_contracts := foldl remove_strike (all_contracts ocd) (p # ps)\<rparr>),
                      contracts_to_delete := []\<rparr>)))"

text \<open>
  Modelled from the spec: \<^verbatim>\<open>take_closest\<close> is imported from the module
  \<^verbatim>\<open>Utils\<close>, which is not among the source files. The spec says it "computes the
  strike nearest the reference price (ties broken toward the lower strike, mirroring a
  standard closest value selection)". Indexing the empty list raises
  \<^verbatim>\<open>IndexError\<close>.
\<close>

definition closer :: "rat \<Rightarrow> rat \<Rightarrow> rat \<Rightarrow> rat" where
  "closer x best k =
     (if \<bar>k - x\<bar> < \<bar>best - x\<bar> \<or> (\<bar>k - x\<bar> = \<bar>best - x\<bar> \<and> k < best) then k else best)"

definition take_closest :: "rat list \<Rightarrow> rat \<Rightarrow> py_error + rat" where
  "take_closest myList myNumber =
     (case myList of [] \<Rightarrow> Inl IndexError | a # rest \<Rightarrow> Inr (foldl (closer myNumber) a rest))"

text \<open>
  Python floats are IEEE 754 doubles. A finite double is held as the rational it denotes,
  and an operation is the exact operation followed by \<open>round_double\<close>: rounding to the
  nearest double, ties to the even significand, with the subnormal spacing below
  \<open>2\<close> to the \<open>-1022\<close>. \<open>bits n\<close> is the number of binary digits of \<open>n\<close>,
  \<open>floor_log2 x\<close> the exponent of the power of two at or below a positive \<open>x\<close>. A
  result beyond \<open>max_double\<close> is an infinity in Python.
\<close>

fun bits :: "nat \<Rightarrow> nat" where
  "bits n = (if n = 0 then 0 else Suc (bits (n div 2)))"

declare bits.simps [simp del]

definition pow2 :: "int \<Rightarrow> rat" where
  "pow2 i = (if 0 \<le> i then 2 ^ nat i else 1 / 2 ^ nat (- i))"

definition floor_log2 :: "rat \<Rightarrow> int" where
  "floor_log2 x =
     (if 1 \<le> x then int (bits (nat \<lfloor>x\<rfloor>)) - 1 else - int (bits (nat (\<lceil>1 / x\<rceil> - 1))))"

definition round_half_even :: "rat \<Rightarrow> int" where
  "round_half_even y =
     (let f = \<lfloor>y\<rfloor>; r = y - of_int f
      in if r < 1 / 2 then f else if 1 / 2 < r then f + 1 else if even f then f else f + 1)"

definition round_double :: "rat \<Rightarrow> rat" where
  "round_double x =
     (if x = 0 then 0
      else (let e = max (floor_log2 \<bar>x\<bar>) (- 1022); q = pow2 (e - 52)
            in of_int (round_half_even (x / q)) * q))"

definition max_double :: rat where
  "max_double = (2 ^ 53 - 1) * 2 ^ 971"

text \<open>
  The test \<^verbatim>\<open>abs(strike - atm_strike) / atm_strike > dist_from_atm\<close> for an anchor
  other than zero, the strikes finite doubles and the band a finite number. The
  difference is rounded; when it overflows, its absolute value is \<^verbatim>\<open>inf\<close> and the
  quotient is \<^verbatim>\<open>inf\<close> or \<^verbatim>\<open>-inf\<close> by the sign of the anchor. Otherwise the
  quotient is rounded; when it overflows it is \<^verbatim>\<open>inf\<close> or \<^verbatim>\<open>-inf\<close> by its
  sign, and otherwise it is compared with the band. \<^verbatim>\<open>inf\<close> is greater than every
  finite number and \<^verbatim>\<open>-inf\<close> is greater than none.
\<close>

definition too_far :: "rat \<Rightarrow> rat \<Rightarrow> rat \<Rightarrow> bool" where
  "too_far atm_strike pct k =
     (let diff = round_double (k - atm_strike)
      in if max_double < \<bar>diff\<bar> then 0 < atm_strike
         else (let quot = round_double (\<bar>diff\<bar> / atm_strike)
               in if max_double < \<bar>quot\<bar> then 0 < quot else pct < quot))"

text \<open>The first loop of \<^verbatim>\<open>keep_close_strikes\<close>: the strikes too far from the anchor
  are queued with an empty side list. The division raises on an anchor of zero.\<close>

fun mark_far :: "rat \<Rightarrow> rat \<Rightarrow> rat list \<Rightarrow> (rat \<times> string list) list
    \<Rightarrow> py_error + (rat \<times> string list) list" where
  "mark_far atm_strike pct [] d = Inr d"
| "mark_far atm_strike pct (k # ks) d =
     (if atm_strike = 0 then Inl ZeroDivisionError
      else if too_far atm_strike pct k
      then mark_far atm_strike pct ks (AList.update k [] d)
      else mark_far atm_strike pct ks d)"

text \<open>The second loop: \<^verbatim>\<open>del all_contracts[strike]\<close> for every queued strike; a
  strike that is not in the chain raises \<^verbatim>\<open>KeyError\<close>.\<close>

fun del_all :: "rat list \<Rightarrow> (rat \<times> 'v) list \<Rightarrow> py_error + (rat \<times> 'v) list" where
  "del_all [] ac = Inr ac"
| "del_all (k # ks) ac =
     (if k \<in> fst ` set ac then del_all ks (AList.delete k ac) else Inl KeyError)"

definition keep_close_strikes :: "ibapi \<Rightarrow> rat \<Rightarrow> py_error + ibapi" where
  "keep_close_strikes s dist_from_atm =
     (case option_chain_data s of
        None \<Rightarrow> Inl AttributeError
      | Some ocd \<Rightarrow>
          (let ordered = sort_key fst (all_contracts ocd)
           in then_do (take_closest (map fst ordered) (open_spot_price ocd)) (\<lambda>atm_strike.
              then_do (mark_far atm_strike dist_from_atm (map fst ordered) (contracts_to_delete s)) (\<lambda>d.
              then_do (del_all (map fst d) ordered) (\<lambda>ac.
                Inr (s\<lparr>option_chain_data :=
                         Some (ocd\<lparr>all_contracts := ac, is_defaultdict := False\<rparr>),
                       contracts_to_delete := []\<rparr>))))))"

section \<open>Resolving the option chain (IBApp.py 227-235, 296-370)\<close>

definition and_then :: "('e + 'a) option \<Rightarrow> ('a \<Rightarrow> ('e + 'b) option) \<Rightarrow> ('e + 'b) option" where
  "and_then r f = (case r of None \<Rightarrow> None | Some (Inl e) \<Rightarrow> Some (Inl e) | Some (Inr x) \<Rightarrow> f x)"

definition get_asset_contract :: "string \<Rightarrow> Contract" where
  "get_asset_contract name =
     \<lparr>symbol = name, secType = ''STK'', exchange = ''SMART'', currency = ''USD'',
      strike = 0, right = [], lastTradeDateOrContractMonth = []\<rparr>"

definition get_ambiguous_option_contract :: "string \<Rightarrow> string \<Rightarrow> Contract" where
  "get_ambiguous_option_contract next_expiry underline_asset =
     \<lparr>symbol = underline_asset, secType = ''OPT'', exchange = ''SMART'', currency = ''USD'',
      strike = 0, right = [], lastTradeDateOrContractMonth = next_expiry\<rparr>"

text \<open>\<^verbatim>\<open>while self.option_chain_data.open_spot_price == -1: time.sleep(1)\<close>.\<close>

fun wait_spot :: "ibapi \<Rightarrow> tick list \<Rightarrow> (py_error + ibapi \<times> tick list) option" where
  "wait_spot s [] =
     (case option_chain_data s of
        None \<Rightarrow> Some (Inl AttributeError)
      | Some ocd \<Rightarrow> if open_spot_price ocd = -1 then None else Some (Inr (s, [])))"
| "wait_spot s (t # rest) =
     (case option_chain_data s of
        None \<Rightarrow> Some (Inl AttributeError)
      | Some ocd \<Rightarrow>
          if open_spot_price ocd = -1 then wait_spot (sleep s t) rest
          else Some (Inr (s, t # rest)))"

definition get_underline_open_price :: "ibapi \<Rightarrow> string \<Rightarrow> int \<Rightarrow> tick list
    \<Rightarrow> (py_error + ibapi \<times> tick list) option" where
  "get_underline_open_price s asset d ts =
     (let underline_contract = get_asset_contract asset;
          is_live_data_request = (date_of d = date_of (clock s));
          s1 = s\<lparr>requests := requests s @
                 [if \<not> is_live_data_request
                  then ReqHistoricalData OPEN_SPOT_PRICE_REQ_ID underline_contract d 60
                         ''1 min'' ''BID_ASK''
                  else ReqMktData OPEN_SPOT_PRICE_REQ_ID underline_contract]\<rparr>
      in and_then (wait_spot s1 ts) (\<lambda>(s2, ts2).
           if is_live_data_request
           then Some (Inr (s2\<lparr>requests := requests s2 @ [CancelMktData OPEN_SPOT_PRICE_REQ_ID]\<rparr>, ts2))
           else Some (Inr (s2, ts2))))"

text \<open>\<^verbatim>\<open>while not self.option_chain_data.all_contracts_fetched: time.sleep(1)\<close>.\<close>

fun wait_fetched :: "ibapi \<Rightarrow> tick list \<Rightarrow> (py_error + ibapi \<times> tick list) option" where
  "wait_fetched s [] =
     (case option_chain_data s of
        None \<Rightarrow> Some (Inl AttributeError)
      | Some ocd \<Rightarrow> if \<not> all_contracts_fetched ocd then None else Some (Inr (s, [])))"
| "wait_fetched s (t # rest) =
     (case option_chain_data s of
        None \<Rightarrow> Some (Inl AttributeError)
      | Some ocd \<Rightarrow>
          if \<not> all_contracts_fetched ocd then wait_fetched (sleep s t) rest
          else Some (Inr (s, t # rest)))"

text \<open>The configuration (\<^verbatim>\<open>class Config\<close>, IBUtils.py 9-22): the fields the day's
  iteration reads.\<close>

record Config =
  start_time :: int
  end_time :: int
  request_interval :: int
  pct_strikes_from_atm :: rat

text \<open>
  \<^verbatim>\<open>OPT.get_all_needed_contracts\<close>. \<^verbatim>\<open>get_closest_expiry\<close> comes from the module
  \<^verbatim>\<open>Utils\<close>, which is not among the source files: its result is the parameter
  \<open>next_expiry\<close> (the expiry as \<^verbatim>\<open>'%Y%m%d'\<close> text, \<open>None\<close> when it raises).
\<close>

definition OPT_get_all_needed_contracts :: "ibapi \<Rightarrow> string \<Rightarrow> int \<Rightarrow> string option \<Rightarrow> Config
    \<Rightarrow> tick list \<Rightarrow> (py_error + ibapi \<times> tick list) option" where
  "OPT_get_all_needed_contracts s asset d next_expiry config ts =
     (let s0 = s\<lparr>option_chain_data := Some (new_option_chain_data asset),
                 contracts_to_delete := []\<rparr>
      in case next_expiry of
           None \<Rightarrow> Some (Inl NoExpiryFound)
         | Some expiry \<Rightarrow>
             and_then (get_underline_open_price s0 asset
                         (replace_hm d (hour (start_time config)) (minute (start_time config))) ts)
               (\<lambda>(s1, ts1).
             and_then (wait_fetched
                         (s1\<lparr>requests := requests s1 @
                            [ReqContractDetails ALL_OPTION_CONTRACTS_DETAILS_REQ_ID
                               (get_ambiguous_option_contract expiry asset)]\<rparr>) ts1)
               (\<lambda>(s2, ts2).
                  case keep_close_strikes s2 (pct_strikes_from_atm config) of
                    Inl e \<Rightarrow> Some (Inl e)
                  | Inr s3 \<Rightarrow> Some (Inr (s3, ts2)))))"

text \<open>\<^verbatim>\<open>IBapi.get_all_needed_contracts\<close> returns at once; only \<^verbatim>\<open>OPT\<close> overrides
  it.\<close>

definition get_all_needed_contracts :: "ibapi \<Rightarrow> string \<Rightarrow> int \<Rightarrow> string option \<Rightarrow> Config
    \<Rightarrow> tick list \<Rightarrow> (py_error + ibapi \<times> tick list) option" where
  "get_all_needed_contracts s asset d next_expiry config ts =
     (case cls s of
        OPT \<Rightarrow> OPT_get_all_needed_contracts s asset d next_expiry config ts
      | STK \<Rightarrow> Some (Inr (s, ts))
      | FX \<Rightarrow> Some (Inr (s, ts)))"

section \<open>Time buckets and the day's iteration (getHistoricalData.py 36-116)\<close>

text \<open>
  The range of \<^verbatim>\<open>datetime\<close>, from \<^verbatim>\<open>datetime.min\<close> (0001-01-01 00:00:00) to
  \<^verbatim>\<open>datetime.max\<close> (9999-12-31 23:59:59.999999), in microseconds since the epoch.
  Adding a \<^verbatim>\<open>timedelta\<close> to a \<^verbatim>\<open>datetime\<close> raises
  \<^verbatim>\<open>OverflowError\<close> when the result leaves the range, and
  \<^verbatim>\<open>timedelta(minutes=n)\<close> raises it when the number of days exceeds 999999999 in
  magnitude.
\<close>

definition datetime_min :: int where
  "datetime_min = - 62135596800000000"

definition datetime_max :: int where
  "datetime_max = 253402300799999999"

definition datetime_ok :: "int \<Rightarrow> bool" where
  "datetime_ok t = (datetime_min \<le> t \<and> t \<le> datetime_max)"

definition timedelta_ok :: "int \<Rightarrow> bool" where
  "timedelta_ok n = (- 999999999 \<le> n div 1440 \<and> n div 1440 \<le> 999999999)"

text \<open>The loop of \<^verbatim>\<open>get_times_and_interval\<close>:
  \<^verbatim>\<open>while tmp - timedelta(minutes=request_interval) > start_time\<close>. It need not end (a
  bucket length of zero), so not returning is the value \<open>None\<close>; the test raises when
  the difference cannot be formed.\<close>

partial_function (option) walk_back :: "int \<Rightarrow> int \<Rightarrow> int \<Rightarrow> (py_error + int) option" where
  "walk_back tmp start ri =
     (if \<not> timedelta_ok ri \<or> \<not> datetime_ok (tmp - minutes ri) then Some (Inl OverflowError)
      else if tmp - minutes ri > start then walk_back (tmp - minutes ri) start ri
      else Some (Inr tmp))"

text \<open>The result is \<^verbatim>\<open>(end_time, int(interval_size), query_time)\<close>;
  \<^verbatim>\<open>interval_size\<close> is \<^verbatim>\<open>(query_time - start_time).seconds / 60\<close>, and
  \<^verbatim>\<open>int\<close> of a quotient that is not negative is the integer quotient. The five
  minutes of grace are added after the loop.\<close>

definition get_times_and_interval :: "int \<Rightarrow> int \<Rightarrow> int \<Rightarrow> int
    \<Rightarrow> (py_error + int \<times> int \<times> int) option" where
  "get_times_and_interval start_t end_t d ri =
     (let tmp = replace_hm d (hour end_t) (minute end_t);
          start = replace_hm d (hour start_t) (minute start_t)
      in and_then (walk_back tmp start ri) (\<lambda>query_t.
           if \<not> datetime_ok (replace_hm d (hour end_t) (minute end_t) + minutes 5)
           then Some (Inl OverflowError)
           else Some (Inr (replace_hm d (hour end_t) (minute end_t) + minutes 5,
                           td_seconds (query_t - start) div 60,
                           query_t))))"

text \<open>
  The loop \<^verbatim>\<open>while query_time < end_time\<close> of \<^verbatim>\<open>main\<close>, reduced to the buckets
  it issues: each round builds its requests from the current
  \<^verbatim>\<open>(query_time, interval_size)\<close>, then sets \<^verbatim>\<open>interval_size\<close> to the configured
  length and advances \<^verbatim>\<open>query_time\<close> by it, which raises when the sum cannot be
  formed. The provider reads \<^verbatim>\<open>query_time\<close> as the end of the bucket and
  \<^verbatim>\<open>interval_size\<close> as its length.
\<close>

partial_function (option) bucket_loop :: "int \<Rightarrow> int \<Rightarrow> int \<Rightarrow> int \<Rightarrow> (int \<times> int) list
    \<Rightarrow> (py_error + (int \<times> int) list) option" where
  "bucket_loop query_t end_t isz ri acc =
     (if query_t < end_t
      then (if \<not> timedelta_ok ri \<or> \<not> datetime_ok (query_t + minutes ri)
            then Some (Inl OverflowError)
            else bucket_loop (query_t + minutes ri) end_t ri ri (acc @ [(query_t, isz)]))
      else Some (Inr acc))"

definition buckets :: "int \<Rightarrow> int \<Rightarrow> int \<Rightarrow> int \<Rightarrow> (py_error + (int \<times> int) list) option" where
  "buckets start_t end_t d ri =
     and_then (get_times_and_interval start_t end_t d ri)
       (\<lambda>(e, isz, q). bucket_loop q e isz ri [])"

text \<open>\<^verbatim>\<open>is_file_exists\<close>: \<open>file_exists\<close> is \<^verbatim>\<open>os.path.exists(filepath)\<close> and
  \<open>answer\<close> what the user clicks in the message box.\<close>

definition is_file_exists :: "bool \<Rightarrow> string \<Rightarrow> bool" where
  "is_file_exists file_exists answer =
     (if file_exists then (if answer \<noteq> ''yes'' then True else False) else False)"

text \<open>\<^verbatim>\<open>is_weekly_options\<close> (IBUtils.py 127-137).\<close>

definition is_weekly_options :: "string \<Rightarrow> string \<times> bool" where
  "is_weekly_options asset =
     (if drop (length asset - 2) asset = ''_W''
      then (case split_on CHR ''_'' asset of [] \<Rightarrow> (asset, True) | base # others \<Rightarrow> (base, True))
      else (asset, False))"

text \<open>
  One round of \<^verbatim>\<open>for date in config.dates\<close> up to the decision to skip
  (getHistoricalData.py 88-102): the chain is resolved, the times are computed, and when
  the file exists and is not to be overwritten the round ends (\<open>Skipped\<close>); otherwise the
  output file is opened and the round goes on to the bucket loop (\<open>Fetching\<close>, with
  \<^verbatim>\<open>end_time\<close>, \<^verbatim>\<open>interval_size\<close> and \<^verbatim>\<open>query_time\<close>).
\<close>

datatype day_head =
  Skipped ibapi "tick list"
  | Fetching ibapi "tick list" int int int

definition day_head :: "ibapi \<Rightarrow> Config \<Rightarrow> string \<Rightarrow> int \<Rightarrow> string option \<Rightarrow> bool \<Rightarrow> string
    \<Rightarrow> tick list \<Rightarrow> (py_error + day_head) option" where
  "day_head app config asset d next_expiry file_exists answer ts =
     and_then (get_all_needed_contracts app (fst (is_weekly_options asset)) d next_expiry config ts)
       (\<lambda>(s1, ts1).
          and_then (get_times_and_interval (start_time config) (end_time config) d
                      (request_interval config))
            (\<lambda>(e, isz, q).
               if is_file_exists file_exists answer
               then Some (Inr (Skipped s1 ts1))
               else Some (Inr (Fetching (s1\<lparr>output_file := Some []\<rparr>) ts1 e isz q))))"

section \<open>Scenarios\<close>

text \<open>A run of registrations with no completion in between: each request is sent through
  the object's own \<^verbatim>\<open>send_historical_data_request\<close>.\<close>

fun register_all :: "ibapi \<Rightarrow> DataRequest list \<Rightarrow> nat list \<Rightarrow> (ibapi \<times> nat list) option" where
  "register_all s [] rng = Some (s, rng)"
| "register_all s (dr # drs) rng =
     (case send_historical_data_request s dr rng of
        None \<Rightarrow> None
      | Some (s1, dr1, rng1) \<Rightarrow> register_all s1 drs rng1)"

definition sample_request :: DataRequest where
  "sample_request =
     \<lparr>contract = get_asset_contract ''SPY'', query_time = 0, interval_size = 60,
      bid_or_ask = ''ASK'', req_id = -1\<rparr>"

text \<open>Concrete objects: a well-formed bar, and an object of each kind with its output file
  open.\<close>

definition sample_bar :: bar where
  "sample_bar = \<lparr>date = Some (10, 0, 0), bar_open = 1, high = 2, low = 1, close = 2\<rparr>"

definition fx_app :: ibapi where
  "fx_app = (init_ibapi FX ''txt'' 0)\<lparr>output_file := Some []\<rparr>"

definition opt_app :: ibapi where
  "opt_app = (init_ibapi OPT ''txt'' 0)\<lparr>output_file := Some [],
     option_chain_data := Some (new_option_chain_data ''SPY'')\<rparr>"

text \<open>The provider's message for error 162.\<close>

definition no_data_message :: string where
  "no_data_message = ''Historical Market Data Service error message:HMDS query returned no data: SPY@SMART Bid''"

text \<open>The sides queued for a strike in \<open>contracts_to_delete\<close>.\<close>

definition queued_sides :: "(rat \<times> string list) list \<Rightarrow> rat \<Rightarrow> string list" where
  "queued_sides d k = concat (map snd (filter (\<lambda>p. fst p = k) d))"

definition option_contract :: "rat \<Rightarrow> string \<Rightarrow> Contract" where
  "option_contract k side =
     \<lparr>symbol = ''SPY'', secType = ''OPT'', exchange = ''SMART'', currency = ''USD'',
      strike = k, right = side, lastTradeDateOrContractMonth = ''20200117''\<rparr>"

definition request_for :: "Contract \<Rightarrow> DataRequest" where
  "request_for c = \<lparr>contract = c, query_time = 0, interval_size = 60, bid_or_ask = ''ASK'', req_id = -1\<rparr>"

text \<open>The chain holds the call and the put of strike 100; one request is registered for
  each (ids 10 and 11), and the provider answers both with error 162.\<close>

definition two_sides_registered :: ibapi where
  "two_sides_registered =
     opt_app\<lparr>option_chain_data := Some ((new_option_chain_data ''SPY'')
         \<lparr>all_contracts := [(100, [(''C'', option_contract 100 ''C''), (''P'', option_contract 100 ''P'')])]\<rparr>),
       req_id_to_contract :=
         [(10, [(''secType'', VStr ''OPT''), (''data_request'', VReq ((request_for (option_contract 100 ''C''))\<lparr>req_id := 10\<rparr>)), (''time'', VTime 0)]),
          (11, [(''secType'', VStr ''OPT''), (''data_request'', VReq ((request_for (option_contract 100 ''P''))\<lparr>req_id := 11\<rparr>)), (''time'', VTime 0)])],
       open_requests := 2, sent_time_queue := [0, 0]\<rparr>"

definition two_sides_failed :: ibapi where
  "two_sides_failed =
     dispatch (dispatch two_sides_registered (Error 10 162 no_data_message)) (Error 11 162 no_data_message)"

text \<open>A bar that closes at \<open>c\<close>, and a tick during which that bar arrives for the
  reference-price request.\<close>

definition bar_closing :: "rat \<Rightarrow> bar" where
  "bar_closing c = \<lparr>date = Some (9, 30, 0), bar_open = c, high = c, low = c, close = c\<rparr>"


text \<open>A connected object at clock 0 with \<open>n\<close> requests sent at time 0 and \<open>k\<close> open
  requests.\<close>

definition gate_state :: "nat \<Rightarrow> int \<Rightarrow> ibapi" where
  "gate_state n k =
     (init_ibapi OPT ''txt'' 0)\<lparr>connected := True, sent_time_queue := replicate n 0,
        open_requests := k\<rparr>"

text \<open>The session 09:30-16:00 on the day that starts at the epoch.\<close>

definition half_past_nine :: int where
  "half_past_nine = 34200000000"

definition four_pm :: int where
  "four_pm = 57600000000"

text \<open>The minute of the day of a datetime.\<close>

definition minute_of_day :: "int \<Rightarrow> int" where
  "minute_of_day t = (t mod 86400000000) div 60000000"

text \<open>The test of the band in exact arithmetic: the distance of the strike from the
  anchor exceeds \<open>pct\<close> times the anchor.\<close>

definition beyond_band :: "rat \<Rightarrow> rat \<Rightarrow> rat \<Rightarrow> bool" where
  "beyond_band atm_strike pct k = (pct * atm_strike < \<bar>k - atm_strike\<bar>)"

text \<open>\<open>a\<close> is at least as good an anchor for \<open>x\<close> as \<open>k\<close>: nearer, or as near and
  not higher.\<close>

definition nearer_or_lower :: "rat \<Rightarrow> rat \<Rightarrow> rat \<Rightarrow> bool" where
  "nearer_or_lower x a k = (\<bar>a - x\<bar> < \<bar>k - x\<bar> \<or> (\<bar>a - x\<bar> = \<bar>k - x\<bar> \<and> a \<le> k))"

text \<open>The scenario of the spec: strikes 100 (call and put) and 110 (call), reference
  price 101.\<close>

definition small_chain :: ibapi where
  "small_chain =
     opt_app\<lparr>option_chain_data := Some ((new_option_chain_data ''SPY'')
         \<lparr>open_spot_price := 101,
          all_contracts := [(110, [(''C'', option_contract 110 ''C'')]),
                            (100, [(''C'', option_contract 100 ''C''), (''P'', option_contract 100 ''P'')])],
          all_contracts_fetched := True\<rparr>)\<rparr>"

text \<open>An option object whose chain is \<open>ac\<close>, fetched, with the reference price
  \<open>spot\<close>.\<close>

definition chain_app :: "rat \<Rightarrow> (rat \<times> (string \<times> Contract) list) list \<Rightarrow> ibapi" where
  "chain_app spot ac =
     opt_app\<lparr>option_chain_data := Some ((new_option_chain_data ''SPY'')
         \<lparr>open_spot_price := spot, all_contracts := ac, all_contracts_fetched := True\<rparr>)\<rparr>"

text \<open>The doubles that Python reads from \<^verbatim>\<open>0.03\<close> and \<^verbatim>\<open>0.1\<close>.\<close>

definition double_0_03 :: rat where
  "double_0_03 = 1080863910568919 / 36028797018963968"

definition double_0_1 :: rat where
  "double_0_1 = 3602879701896397 / 36028797018963968"

text \<open>What the response thread and the chain resolution leave alone: the requests sent,
  the pacing window and the class of the object are the same in \<open>s'\<close> as in \<open>s\<close>, and
  the registry of \<open>s'\<close> has no key that \<open>s\<close> has not.\<close>

definition same_window_and_registry :: "ibapi \<Rightarrow> ibapi \<Rightarrow> bool" where
  "same_window_and_registry s s' =
     (sent_time_queue s' = sent_time_queue s \<and> cls s' = cls s
      \<and> open_requests s' \<le> open_requests s
      \<and> set (map fst (req_id_to_contract s')) \<subseteq> set (map fst (req_id_to_contract s)))"

text \<open>The requests \<open>get_underline_open_price\<close> sends for the reference price at
  \<open>d\<close>: a historical query, or on the current day a live subscription and its
  cancellation.\<close>

definition reference_price_requests :: "ibapi \<Rightarrow> string \<Rightarrow> int \<Rightarrow> request list" where
  "reference_price_requests s asset d =
     (if date_of d = date_of (clock s)
      then [ReqMktData OPEN_SPOT_PRICE_REQ_ID (get_asset_contract asset),
            CancelMktData OPEN_SPOT_PRICE_REQ_ID]
      else [ReqHistoricalData OPEN_SPOT_PRICE_REQ_ID (get_asset_contract asset) d 60
              ''1 min'' ''BID_ASK''])"

text \<open>A day of option data that is skipped: the file exists and the answer is "no".\<close>

definition skip_app :: ibapi where
  "skip_app = (init_ibapi OPT ''txt'' 259200000000)\<lparr>connected := True\<rparr>"

definition skip_config :: Config where
  "skip_config = \<lparr>start_time = half_past_nine, end_time = four_pm, request_interval = 60,
     pct_strikes_from_atm = 7 / 100\<rparr>"

definition skip_ticks :: "tick list" where
  "skip_ticks =
     [\<lparr>t_now = 259201000000, t_connected = True,
       t_events = [HistoricalData OPEN_SPOT_PRICE_REQ_ID (bar_closing 100)]\<rparr>,
      \<lparr>t_now = 259202000000, t_connected = True,
       t_events = [ContractDetails ALL_OPTION_CONTRACTS_DETAILS_REQ_ID (option_contract 100 ''C''),
                   ContractDetailsEnd ALL_OPTION_CONTRACTS_DETAILS_REQ_ID]\<rparr>]"

section \<open>Correlation ids are fresh\<close>

lemma randint_range: "a \<le> b \<Longrightarrow> a \<le> randint a b raw \<and> randint a b raw \<le> b"
proof -
  assume "a \<le> b"
  then have pos: "0 < b - a + 1" by simp
  have "0 \<le> int raw mod (b - a + 1)" using pos by simp
  moreover have "int raw mod (b - a + 1) < b - a + 1" using pos by (rule pos_mod_bound)
  ultimately show ?thesis unfolding randint_def by linarith
qed

lemma get_req_id_Some:
  "get_req_id used rng = Some (r, rest) \<Longrightarrow> 10 \<le> r \<and> r \<le> 99999 \<and> r \<notin> set used"
proof (induction rng)
  case Nil
  then show ?case by simp
next
  case (Cons raw rng)
  show ?case
  proof (cases "randint 10 99999 raw \<in> set used")
    case True
    with Cons show ?thesis by simp
  next
    case False
    with Cons.prems have "r = randint 10 99999 raw" by simp
    with False randint_range [of 10 99999 raw] show ?thesis by simp
  qed
qed

lemma get_req_id_returns:
  "\<exists>raw \<in> set rng. randint 10 99999 raw \<notin> set used \<Longrightarrow> get_req_id used rng \<noteq> None"
  by (induction rng) (auto simp: Let_def)

lemma update_fresh_keys: "k \<notin> fst ` set al \<Longrightarrow> map fst (AList.update k v al) = map fst al @ [k]"
  by (induction al) auto

lemma send_keys:
  assumes "send_historical_data_request s dr rng = Some (s1, dr1, rng1)"
  shows "\<exists>r. map fst (req_id_to_contract s1) = map fst (req_id_to_contract s) @ [r]
            \<and> 10 \<le> r \<and> r \<le> 99999 \<and> r \<notin> set (map fst (req_id_to_contract s))"
proof -
  have "\<exists>r e. get_req_id (map fst (req_id_to_contract s)) rng = Some (r, rng1)
      \<and> req_id_to_contract s1 = AList.update r e (req_id_to_contract s)"
    using assms
    by (cases "cls s")
       (auto simp: send_historical_data_request_def tracked_send_def FX_send_def Let_def
          IBapi_send_historical_data_request_def split: option.splits prod.splits)
  then obtain r where g: "get_req_id (map fst (req_id_to_contract s)) rng = Some (r, rng1)"
    and reg: "\<exists>e. req_id_to_contract s1 = AList.update r e (req_id_to_contract s)"
    by blast
  from get_req_id_Some [OF g] have r: "10 \<le> r" "r \<le> 99999" "r \<notin> set (map fst (req_id_to_contract s))"
    by simp_all
  from reg r(3) have "map fst (req_id_to_contract s1) = map fst (req_id_to_contract s) @ [r]"
    by (auto simp: update_fresh_keys)
  with r show ?thesis by blast
qed

lemma register_all_keys:
  "register_all s drs rng = Some (s', rng') \<Longrightarrow> distinct (map fst (req_id_to_contract s)) \<Longrightarrow>
   \<exists>ids. map fst (req_id_to_contract s') = map fst (req_id_to_contract s) @ ids
        \<and> length ids = length drs
        \<and> distinct (map fst (req_id_to_contract s) @ ids)
        \<and> (\<forall>r \<in> set ids. 10 \<le> r \<and> r \<le> 99999)"
proof (induction drs arbitrary: s rng)
  case Nil
  then show ?case by simp
next
  case (Cons dr drs)
  from Cons.prems(1) obtain s1 dr1 rng1 where
    snd1: "send_historical_data_request s dr rng = Some (s1, dr1, rng1)"
    and rest: "register_all s1 drs rng1 = Some (s', rng')"
    by (auto split: option.splits prod.splits)
  from send_keys [OF snd1] obtain r where
    k1: "map fst (req_id_to_contract s1) = map fst (req_id_to_contract s) @ [r]"
    and r: "10 \<le> r" "r \<le> 99999" "r \<notin> set (map fst (req_id_to_contract s))"
    by blast
  from k1 r(3) Cons.prems(2) have d1: "distinct (map fst (req_id_to_contract s1))" by simp
  from Cons.IH [OF rest d1] obtain ids where
    ids: "map fst (req_id_to_contract s') = map fst (req_id_to_contract s1) @ ids"
      "length ids = length drs" "distinct (map fst (req_id_to_contract s1) @ ids)"
      "\<forall>r \<in> set ids. 10 \<le> r \<and> r \<le> 99999"
    by blast
  have "map fst (req_id_to_contract s') = map fst (req_id_to_contract s) @ (r # ids)"
    using ids(1) k1 by simp
  moreover have "length (r # ids) = length (dr # drs)" using ids(2) by simp
  moreover have "distinct (map fst (req_id_to_contract s) @ (r # ids))"
    using ids(3) k1 by simp
  moreover have "\<forall>x \<in> set (r # ids). 10 \<le> x \<and> x \<le> 99999" using ids(4) r by simp
  ultimately show ?case by blast
qed

text \<open>
  Claim C10. An id returned by \<open>get_req_id\<close> lies in 10..99999 and is not among the
  used ids it was given, so it is neither of the reserved ids 1 and 2; and a run of
  registrations with no removal in between adds as many new keys to the registry as
  there are requests, all in range and pairwise distinct, and distinct from the keys that
  were there.
\<close>

theorem get_req_id_fresh:
  "(get_req_id used rng = Some (r, rest) \<longrightarrow>
      10 \<le> r \<and> r \<le> 99999 \<and> r \<notin> set used
      \<and> r \<noteq> OPEN_SPOT_PRICE_REQ_ID \<and> r \<noteq> ALL_OPTION_CONTRACTS_DETAILS_REQ_ID)
   \<and> (distinct (map fst (req_id_to_contract s)) \<and> register_all s drs rng = Some (s', rng') \<longrightarrow>
        (\<exists>ids. map fst (req_id_to_contract s') = map fst (req_id_to_contract s) @ ids
           \<and> length ids = length drs
           \<and> distinct (map fst (req_id_to_contract s) @ ids)
           \<and> (\<forall>r \<in> set ids. 10 \<le> r \<and> r \<le> 99999)))"
proof (rule conjI; rule impI)
  assume g: "get_req_id used rng = Some (r, rest)"
  from get_req_id_Some [OF g] show "10 \<le> r \<and> r \<le> 99999 \<and> r \<notin> set used
      \<and> r \<noteq> OPEN_SPOT_PRICE_REQ_ID \<and> r \<noteq> ALL_OPTION_CONTRACTS_DETAILS_REQ_ID"
    unfolding OPEN_SPOT_PRICE_REQ_ID_def ALL_OPTION_CONTRACTS_DETAILS_REQ_ID_def by auto
next
  assume "distinct (map fst (req_id_to_contract s)) \<and> register_all s drs rng = Some (s', rng')"
  then show "\<exists>ids. map fst (req_id_to_contract s') = map fst (req_id_to_contract s) @ ids
           \<and> length ids = length drs
           \<and> distinct (map fst (req_id_to_contract s) @ ids)
           \<and> (\<forall>r \<in> set ids. 10 \<le> r \<and> r \<le> 99999)"
    using register_all_keys by blast
qed

theorem get_req_id_fresh_witness:
  "get_req_id [10] [0, 5] = Some (15, []) \<and> (15::int) \<notin> set [10]
   \<and> 15 \<noteq> OPEN_SPOT_PRICE_REQ_ID \<and> 15 \<noteq> ALL_OPTION_CONTRACTS_DETAILS_REQ_ID
   \<and> (\<exists>s'. register_all (init_ibapi OPT ''txt'' 0) [sample_request, sample_request] [0, 0, 1]
             = Some (s', [])
          \<and> length (req_id_to_contract s') = 2
          \<and> distinct (map fst (req_id_to_contract s')))"
proof -
  have g: "get_req_id [10] [0, 5] = Some (15, [])"
    by (simp add: randint_def)
  have "\<exists>s'. register_all (init_ibapi OPT ''txt'' 0) [sample_request, sample_request] [0, 0, 1]
          = Some (s', [])"
    by (simp add: send_historical_data_request_def tracked_send_def init_ibapi_def randint_def
        Let_def IBapi_send_historical_data_request_def)
  then obtain s' where
    r: "register_all (init_ibapi OPT ''txt'' 0) [sample_request, sample_request] [0, 0, 1]
          = Some (s', [])"
    by blast
  have d: "distinct (map fst (req_id_to_contract (init_ibapi OPT ''txt'' 0)))"
    by (simp add: init_ibapi_def)
  from get_req_id_fresh [where used = "[10]" and rng = "[0, 5]" and r = 15 and rest = "[]"] g
  have one: "(15::int) \<notin> set [10] \<and> 15 \<noteq> OPEN_SPOT_PRICE_REQ_ID
      \<and> 15 \<noteq> ALL_OPTION_CONTRACTS_DETAILS_REQ_ID"
    by simp
  from get_req_id_fresh [where rng = "[0, 0, 1]" and s = "init_ibapi OPT ''txt'' 0"
      and drs = "[sample_request, sample_request]" and s' = s' and rng' = "[]"] d r
  obtain ids where "map fst (req_id_to_contract s') = ids" "length ids = 2" "distinct ids"
    by (auto simp: init_ibapi_def)
  then have "length (req_id_to_contract s') = 2 \<and> distinct (map fst (req_id_to_contract s'))"
    by (metis length_map)
  with g one r show ?thesis by blast
qed

section \<open>The FX variant cannot read its own registry entries\<close>

lemma update_map_of_fresh: "map_of (AList.update k v al) k = Some v"
  by (simp add: update_conv')

lemma no_data_request_End:
  "map_of (req_id_to_contract s) rid = Some e \<Longrightarrow> map_of e ''data_request'' = None \<Longrightarrow>
   map_of e ''time'' \<noteq> None \<Longrightarrow> historicalDataEnd s rid = Inl KeyError"
  by (auto simp: historicalDataEnd_def then_do_def getitem_def entry_data_request_def)

lemma IBapi_historicalData_cases:
  "IBapi_historicalData s rid b = Inl ValueError \<or> (\<exists>b'. IBapi_historicalData s rid b = Inr b')"
  by (auto simp: IBapi_historicalData_def split: option.splits)

lemma no_data_request_plain:
  "map_of (req_id_to_contract s) rid = Some e \<Longrightarrow> map_of e ''data_request'' = None \<Longrightarrow>
   (\<exists>err. plain_historicalData s rid b = Inl err)
   \<and> (IBapi_historicalData s rid b \<noteq> Inl ValueError \<longrightarrow> plain_historicalData s rid b = Inl KeyError)"
  using IBapi_historicalData_cases [of s rid b]
  by (auto simp: plain_historicalData_def then_do_def getitem_def entry_data_request_def)

lemma FX_send_entry:
  assumes "cls s = FX" and "send_historical_data_request s dr rng = Some (s1, dr1, rng1)"
  shows "\<exists>rid e. rid \<notin> fst ` set (req_id_to_contract s)
           \<and> map_of (req_id_to_contract s1) rid = Some e
           \<and> map_of e ''data_request'' = None \<and> map_of e ''time'' \<noteq> None"
proof -
  from assms obtain rid where
    g: "get_req_id (map fst (req_id_to_contract s)) rng = Some (rid, rng1)"
    and reg: "req_id_to_contract s1 = AList.update rid
       [(''secType'', VStr ''FX''), (''strike'', VNum 0), (''bidOrAsk'', VStr (bid_or_ask dr)),
        (''callOrPut'', VStr ''F''), (''time'', VTime (clock s))] (req_id_to_contract s)"
    by (auto simp: send_historical_data_request_def FX_send_def Let_def split: option.splits)
  from get_req_id_Some [OF g] have "rid \<notin> fst ` set (req_id_to_contract s)" by simp
  with reg show ?thesis by (auto simp: update_map_of_fresh)
qed

text \<open>
  Claim C9. In the FX variant, the entry that \<^verbatim>\<open>FX.send_historical_data_request\<close>
  stores under the new id has no \<^verbatim>\<open>"data_request"\<close> key. In every later state of
  an FX object that still tracks the id with that entry, the end-of-stream handler fails
  with \<^verbatim>\<open>KeyError\<close>, and the bar handler fails for every bar: it never writes a
  record, and its error is \<^verbatim>\<open>KeyError\<close> whenever the inherited date step, which
  runs first, does not itself raise \<^verbatim>\<open>ValueError\<close>.
\<close>

theorem FX_handlers_raise_KeyError:
  assumes "cls s = FX" and "send_historical_data_request s dr rng = Some (s1, dr1, rng1)"
  shows "\<exists>rid e. rid \<notin> fst ` set (req_id_to_contract s)
           \<and> map_of (req_id_to_contract s1) rid = Some e
           \<and> map_of e ''data_request'' = None
           \<and> (\<forall>s'. cls s' = FX \<and> map_of (req_id_to_contract s') rid = Some e \<longrightarrow>
                  historicalDataEnd s' rid = Inl KeyError
                  \<and> (\<forall>b. (\<exists>err. historicalData s' rid b = Inl err)
                        \<and> (IBapi_historicalData s' rid b \<noteq> Inl ValueError \<longrightarrow>
                             historicalData s' rid b = Inl KeyError)))"
proof -
  from FX_send_entry [OF assms] obtain rid e where
    e: "rid \<notin> fst ` set (req_id_to_contract s)" "map_of (req_id_to_contract s1) rid = Some e"
      "map_of e ''data_request'' = None" "map_of e ''time'' \<noteq> None"
    by blast
  have "historicalDataEnd s' rid = Inl KeyError
        \<and> (\<forall>b. (\<exists>err. historicalData s' rid b = Inl err)
              \<and> (IBapi_historicalData s' rid b \<noteq> Inl ValueError \<longrightarrow>
                   historicalData s' rid b = Inl KeyError))"
    if "cls s' = FX \<and> map_of (req_id_to_contract s') rid = Some e" for s'
  proof -
    from that have c: "cls s' = FX" and m: "map_of (req_id_to_contract s') rid = Some e" by simp_all
    have h: "historicalData s' rid b = plain_historicalData s' rid b" for b
      using c by (simp add: historicalData_def)
    from no_data_request_End [OF m e(3) e(4)] no_data_request_plain [OF m e(3)] h
    show ?thesis by simp
  qed
  with e show ?thesis by blast
qed

lemma fx_sent: "send_historical_data_request fx_app sample_request [0] =
   Some (fx_app\<lparr>req_id_to_contract := [(10, [(''secType'', VStr ''FX''), (''strike'', VNum 0),
       (''bidOrAsk'', VStr ''ASK''), (''callOrPut'', VStr ''F''), (''time'', VTime 0)])],
       requests := [req_historical 10 sample_request],
       sent_time_queue := [0], open_requests := 1\<rparr>, sample_request, [])"
  by (simp add: send_historical_data_request_def FX_send_def fx_app_def init_ibapi_def randint_def
      sample_request_def Let_def)


theorem FX_handlers_raise_KeyError_witness:
  "cls fx_app = FX
   \<and> (\<exists>s1. send_historical_data_request fx_app sample_request [0] = Some (s1, sample_request, [])
          \<and> map_of (req_id_to_contract s1) 10 \<noteq> None
          \<and> historicalDataEnd s1 10 = Inl KeyError
          \<and> historicalData s1 10 sample_bar = Inl KeyError)"
proof -
  have c: "cls fx_app = FX" by (simp add: fx_app_def init_ibapi_def)
  let ?s1 = "fx_app\<lparr>req_id_to_contract := [(10, [(''secType'', VStr ''FX''), (''strike'', VNum 0),
       (''bidOrAsk'', VStr ''ASK''), (''callOrPut'', VStr ''F''), (''time'', VTime 0)])],
       requests := [req_historical 10 sample_request],
       sent_time_queue := [0], open_requests := 1\<rparr>"
  have c1: "cls ?s1 = FX" using c by simp
  from FX_handlers_raise_KeyError [OF c fx_sent] obtain rid e where
    m: "map_of (req_id_to_contract ?s1) rid = Some e"
    and all: "\<forall>s'. cls s' = FX \<and> map_of (req_id_to_contract s') rid = Some e \<longrightarrow>
                  historicalDataEnd s' rid = Inl KeyError
                  \<and> (\<forall>b. (\<exists>err. historicalData s' rid b = Inl err)
                        \<and> (IBapi_historicalData s' rid b \<noteq> Inl ValueError \<longrightarrow>
                             historicalData s' rid b = Inl KeyError))"
    by blast
  from m have rid: "rid = 10" by (simp split: if_splits)
  have ok: "IBapi_historicalData ?s1 10 sample_bar \<noteq> Inl ValueError"
    by (simp add: IBapi_historicalData_def sample_bar_def fx_app_def init_ibapi_def)
  from all c1 m rid ok have "historicalDataEnd ?s1 10 = Inl KeyError
      \<and> historicalData ?s1 10 sample_bar = Inl KeyError"
    by blast
  moreover from m rid have "map_of (req_id_to_contract ?s1) 10 \<noteq> None" by simp
  ultimately show ?thesis using c fx_sent by blast
qed


section \<open>End of stream\<close>

lemma historicalDataEnd_unknown:
  "map_of (req_id_to_contract s) rid = None \<Longrightarrow> rid \<noteq> OPEN_SPOT_PRICE_REQ_ID \<Longrightarrow>
   historicalDataEnd s rid = Inl UnknownReqId"
  by (simp add: historicalDataEnd_def)

lemma historicalDataEnd_pseudo:
  "map_of (req_id_to_contract s) OPEN_SPOT_PRICE_REQ_ID = None \<Longrightarrow>
   historicalDataEnd s OPEN_SPOT_PRICE_REQ_ID = Inr s"
  by (simp add: historicalDataEnd_def)

lemma historicalDataEnd_tracked:
  "map_of (req_id_to_contract s) rid = Some e \<Longrightarrow> map_of e ''data_request'' = Some (VReq dr) \<Longrightarrow>
   map_of e ''time'' = Some t \<Longrightarrow>
   historicalDataEnd s rid =
     Inr (s\<lparr>req_id_to_contract := AList.delete rid (req_id_to_contract s),
            open_requests := open_requests s - 1\<rparr>)"
  by (simp add: historicalDataEnd_def then_do_def getitem_def entry_data_request_def)

text \<open>
  Claim C6. The end-of-stream handler raises the unknown-id exception for an id that is
  neither tracked nor the reference-price id (\<open>historicalDataEnd_unknown\<close>), and returns
  for the reference-price id (\<open>historicalDataEnd_pseudo\<close>) and for a tracked id whose
  entry holds a request (\<open>historicalDataEnd_tracked\<close>). It does raise for a tracked id
  of the FX variant: the run below registers one request on an FX object and delivers
  its end-of-stream event.
\<close>

theorem historicalDataEnd_FX_tracked_raises:
  "\<exists>s1. send_historical_data_request fx_app sample_request [0] = Some (s1, sample_request, [])
        \<and> map_of (req_id_to_contract s1) 10 \<noteq> None
        \<and> historicalDataEnd s1 10 = Inl KeyError"
proof -
  let ?e = "[(''secType'', VStr ''FX''), (''strike'', VNum 0),
       (''bidOrAsk'', VStr ''ASK''), (''callOrPut'', VStr ''F''), (''time'', VTime 0)]"
  let ?s1 = "fx_app\<lparr>req_id_to_contract := [(10, ?e)],
       requests := [req_historical 10 sample_request],
       sent_time_queue := [0], open_requests := 1\<rparr>"
  have m: "map_of (req_id_to_contract ?s1) 10 = Some ?e" by simp
  have "historicalDataEnd ?s1 10 = Inl KeyError"
    by (rule no_data_request_End [OF m]) simp_all
  with m fx_sent show ?thesis by blast
qed


section \<open>The counter of open requests and the registry\<close>

lemma split_no_data: "split_on CHR '':'' no_data_message =
   [''Historical Market Data Service error message'', ''HMDS query returned no data'', '' SPY@SMART Bid'']"
  by (simp add: no_data_message_def)

lemma opt_sent: "send_historical_data_request opt_app sample_request [0] =
   Some (opt_app\<lparr>sent_time_queue := [0], open_requests := 1,
       req_id_to_contract := [(10, [(''secType'', VStr ''OPT''),
          (''data_request'', VReq (sample_request\<lparr>req_id := 10\<rparr>)), (''time'', VTime 0)])],
       requests := [req_historical 10 (sample_request\<lparr>req_id := 10\<rparr>)]\<rparr>,
       sample_request\<lparr>req_id := 10\<rparr>, [])"
  by (simp add: send_historical_data_request_def tracked_send_def opt_app_def init_ibapi_def
      randint_def Let_def IBapi_send_historical_data_request_def)

lemma error_162_tracked:
  assumes "map_of (req_id_to_contract s) rid = Some e"
    and "map_of e ''data_request'' = Some (VReq dr)"
    and "split_on CHR '':'' msg = a # ''HMDS query returned no data'' # rest"
  shows "error s rid 162 msg =
     Inr (s\<lparr>contracts_to_delete :=
              append_side (strike (contract dr)) (right (contract dr)) (contracts_to_delete s),
            open_requests := open_requests s - 1\<rparr>)"
  using assms by (simp add: error_def then_do_def getitem_def entry_data_request_def)

text \<open>
  Claim C2. The counter \<open>open_requests\<close> and the number of registry entries do not stay
  equal: one request is registered on an option object (counter 1, one entry), the
  provider answers with error 162 "no data", and the handler decrements the counter to
  0 while the entry stays in the registry.
\<close>

theorem error_162_keeps_registry_entry:
  "\<exists>s1 s2. send_historical_data_request opt_app sample_request [0]
              = Some (s1, sample_request\<lparr>req_id := 10\<rparr>, [])
        \<and> open_requests s1 = 1 \<and> length (req_id_to_contract s1) = 1
        \<and> error s1 10 162 no_data_message = Inr s2
        \<and> open_requests s2 = 0 \<and> length (req_id_to_contract s2) = 1"
proof -
  let ?e = "[(''secType'', VStr ''OPT''),
          (''data_request'', VReq (sample_request\<lparr>req_id := 10\<rparr>)), (''time'', VTime 0)]"
  let ?s1 = "opt_app\<lparr>sent_time_queue := [0], open_requests := 1,
       req_id_to_contract := [(10, ?e)],
       requests := [req_historical 10 (sample_request\<lparr>req_id := 10\<rparr>)]\<rparr>"
  have m: "map_of (req_id_to_contract ?s1) 10 = Some ?e" by simp
  have d: "map_of ?e ''data_request'' = Some (VReq (sample_request\<lparr>req_id := 10\<rparr>))" by simp
  from error_162_tracked [OF m d split_no_data]
  obtain s2 where "error ?s1 10 162 no_data_message = Inr s2" "open_requests s2 = 0"
    "length (req_id_to_contract s2) = 1"
    by simp
  with opt_sent show ?thesis by fastforce
qed

lemma delete_length:
  "distinct (map fst al) \<Longrightarrow> map_of al k = Some v \<Longrightarrow> length (AList.delete k al) + 1 = length al"
  by (induction al) (auto simp: delete_notin_dom map_of_eq_None_iff [symmetric] simp del: map_of_eq_None_iff split: if_splits)

lemma send_keeps_count:
  assumes "send_historical_data_request s dr rng = Some (s1, dr1, rng1)"
    and "open_requests s = int (length (req_id_to_contract s))"
  shows "open_requests s1 = int (length (req_id_to_contract s1))"
proof -
  from send_keys [OF assms(1)] obtain r where
    "map fst (req_id_to_contract s1) = map fst (req_id_to_contract s) @ [r]" by blast
  then have "length (req_id_to_contract s1) = length (req_id_to_contract s) + 1"
    by (metis length_append_singleton length_map Suc_eq_plus1)
  moreover have "open_requests s1 = open_requests s + 1"
    using assms(1)
    by (cases "cls s")
      (auto simp: send_historical_data_request_def tracked_send_def FX_send_def Let_def
          IBapi_send_historical_data_request_def split: option.splits prod.splits)
  ultimately show ?thesis using assms(2) by simp
qed

lemma historicalDataEnd_keeps_count:
  assumes "historicalDataEnd s rid = Inr s'"
    and "distinct (map fst (req_id_to_contract s))"
    and "open_requests s = int (length (req_id_to_contract s))"
  shows "open_requests s' = int (length (req_id_to_contract s'))"
proof (cases "map_of (req_id_to_contract s) rid")
  case None
  with assms(1) have "s' = s" by (simp add: historicalDataEnd_def split: if_splits)
  with assms(3) show ?thesis by simp
next
  case (Some e)
  with assms(1) have s': "s' = s\<lparr>req_id_to_contract := AList.delete rid (req_id_to_contract s),
            open_requests := open_requests s - 1\<rparr>"
    by (auto simp: historicalDataEnd_def then_do_def split: sum.splits)
  from delete_length [OF assms(2) Some] assms(3) s' show ?thesis by simp
qed

section \<open>Applying the queued removals\<close>

lemma two_sides_built:
  "then_do (contractDetails opt_app 2 (option_contract 100 ''C'')) (\<lambda>s. contractDetails s 2 (option_contract 100 ''P''))
   = Inr (opt_app\<lparr>option_chain_data := Some ((new_option_chain_data ''SPY'')
         \<lparr>all_contracts := [(100, [(''C'', option_contract 100 ''C''), (''P'', option_contract 100 ''P'')])]\<rparr>)\<rparr>)"
  by (simp add: contractDetails_def opt_app_def init_ibapi_def new_option_chain_data_def then_do_def
      ALL_OPTION_CONTRACTS_DETAILS_REQ_ID_def option_contract_def)

lemma two_sides_failed_eq:
  "two_sides_failed = two_sides_registered\<lparr>contracts_to_delete := [(100, [''C'', ''P''])], open_requests := 0\<rparr>"
  by (simp add: two_sides_failed_def two_sides_registered_def dispatch_def error_def then_do_def
      getitem_def entry_data_request_def split_no_data append_side_def request_for_def
      option_contract_def opt_app_def init_ibapi_def)

lemma delete_filter: "AList.delete k m = filter (\<lambda>p. fst p \<noteq> k) m"
  by (induction m) auto

lemma remove_sides_filter: "remove_sides sides m = filter (\<lambda>p. fst p \<notin> set sides) m"
proof (induction sides arbitrary: m)
  case Nil
  then show ?case by (simp add: remove_sides_def)
next
  case (Cons side sides)
  have step: "remove_sides (side # sides) m =
      remove_sides sides (if side \<in> fst ` set m then AList.delete side m else m)"
    by (simp add: remove_sides_def)
  have del: "(if side \<in> fst ` set m then AList.delete side m else m) = filter (\<lambda>p. fst p \<noteq> side) m"
    using delete_id [of side m] by (simp add: delete_filter)
  show ?case unfolding step del Cons.IH by (simp add: conj_commute)
qed

lemma remove_strike_keys: "map fst (remove_strike ac p) = map fst ac"
proof (cases "map_of ac (fst p)")
  case None
  then show ?thesis by (simp add: remove_strike_def)
next
  case (Some m)
  then have "fst p \<in> set (map fst ac)" by (metis map_of_eq_None_iff option.distinct(1) set_map)
  with Some show ?thesis by (simp add: remove_strike_def update_keys)
qed

lemma remove_strike_map_of:
  "map_of (remove_strike ac p) k =
     (case map_of ac k of
        None \<Rightarrow> None
      | Some m \<Rightarrow> Some (if k = fst p then filter (\<lambda>q. fst q \<notin> set (snd p)) m else m))"
  by (cases "map_of ac (fst p)")
     (auto simp: remove_strike_def update_conv' remove_sides_filter split: option.splits)

lemma foldl_remove_strike_keys: "map fst (foldl remove_strike ac d) = map fst ac"
  by (induction d arbitrary: ac) (simp_all add: remove_strike_keys)

lemma foldl_remove_strike_map_of:
  "map_of ac k = Some m \<Longrightarrow>
   map_of (foldl remove_strike ac d) k = Some (filter (\<lambda>q. fst q \<notin> set (queued_sides d k)) m)"
proof (induction d arbitrary: ac m)
  case Nil
  then show ?case by (simp add: queued_sides_def)
next
  case (Cons p d)
  let ?m1 = "if k = fst p then filter (\<lambda>q. fst q \<notin> set (snd p)) m else m"
  from Cons.prems have m1: "map_of (remove_strike ac p) k = Some ?m1"
    by (simp add: remove_strike_map_of)
  have "map_of (foldl remove_strike ac (p # d)) k = map_of (foldl remove_strike (remove_strike ac p) d) k"
    by simp
  also have "\<dots> = Some (filter (\<lambda>q. fst q \<notin> set (queued_sides d k)) ?m1)"
    by (rule Cons.IH [OF m1])
  also have "filter (\<lambda>q. fst q \<notin> set (queued_sides d k)) ?m1
      = filter (\<lambda>q. fst q \<notin> set (queued_sides (p # d) k)) m"
    by (auto simp: queued_sides_def intro: filter_cong)
  finally show ?case .
qed

text \<open>
  Claim C3, as amended. \<open>remove_contracts\<close> on an object with a chain returns the
  object it was given with two fields changed: the removal queue is empty, and in the
  chain \<open>all_contracts\<close> every strike key is where it was and maps to its former side
  map without the sides queued for that strike (a strike all of whose sides were queued
  stays, with an empty side map). Every other field of the object and of the chain is as
  it was.
\<close>

theorem remove_contracts_keeps_strikes:
  assumes "option_chain_data s = Some ocd"
  shows "\<exists>ac'. remove_contracts s =
             Inr (s\<lparr>option_chain_data := Some (ocd\<lparr>all_contracts := ac'\<rparr>),
                    contracts_to_delete := []\<rparr>)
           \<and> map fst ac' = map fst (all_contracts ocd)
           \<and> (\<forall>k m. map_of (all_contracts ocd) k = Some m \<longrightarrow>
                 map_of ac' k =
                   Some (filter (\<lambda>q. fst q \<notin> set (queued_sides (contracts_to_delete s) k)) m))"
proof -
  let ?ac = "foldl remove_strike (all_contracts ocd) (contracts_to_delete s)"
  have run: "remove_contracts s =
      Inr (s\<lparr>option_chain_data := Some (ocd\<lparr>all_contracts := ?ac\<rparr>), contracts_to_delete := []\<rparr>)"
  proof (cases "contracts_to_delete s")
    case Nil
    have "s\<lparr>option_chain_data := Some ocd\<rparr> = s" using assms by simp
    then have "s\<lparr>contracts_to_delete := []\<rparr>
        = s\<lparr>option_chain_data := Some ocd, contracts_to_delete := []\<rparr>"
      by simp
    with Nil show ?thesis by (simp add: remove_contracts_def)
  next
    case (Cons p ps)
    with assms show ?thesis by (simp add: remove_contracts_def)
  qed
  have keys: "map fst ?ac = map fst (all_contracts ocd)"
    by (simp add: foldl_remove_strike_keys)
  have sides: "\<forall>k m. map_of (all_contracts ocd) k = Some m \<longrightarrow>
                 map_of ?ac k =
                   Some (filter (\<lambda>q. fst q \<notin> set (queued_sides (contracts_to_delete s) k)) m)"
    by (simp add: foldl_remove_strike_map_of)
  from run keys sides show ?thesis by blast
qed

lemma remove_contracts_without_chain:
  "option_chain_data s = None \<Longrightarrow>
   remove_contracts s =
     (if contracts_to_delete s = [] then Inr (s\<lparr>contracts_to_delete := []\<rparr>)
      else Inl AttributeError)"
  by (cases "contracts_to_delete s") (simp_all add: remove_contracts_def)

text \<open>
  Claim C3 as stated fails: after "no data" errors for the call and the put of strike
  100, \<open>remove_contracts\<close> leaves the key 100 in \<open>all_contracts\<close> with an empty side
  map.
\<close>

theorem remove_contracts_leaves_empty_strike:
  "\<exists>s' ocd'. remove_contracts two_sides_failed = Inr s' \<and> option_chain_data s' = Some ocd'
      \<and> all_contracts ocd' = [(100, [])]"
  by (simp add: two_sides_failed_eq two_sides_registered_def remove_contracts_def remove_strike_def
      remove_sides_def opt_app_def init_ibapi_def new_option_chain_data_def)

theorem remove_contracts_keeps_strikes_witness:
  "\<exists>ocd. option_chain_data two_sides_failed = Some ocd
      \<and> map_of (all_contracts ocd) 100
          = Some [(''C'', option_contract 100 ''C''), (''P'', option_contract 100 ''P'')]
      \<and> queued_sides (contracts_to_delete two_sides_failed) 100 = [''C'', ''P'']
      \<and> remove_contracts two_sides_failed =
           Inr (two_sides_failed\<lparr>option_chain_data := Some (ocd\<lparr>all_contracts := [(100, [])]\<rparr>),
                                  contracts_to_delete := []\<rparr>)"
proof -
  let ?ocd = "(new_option_chain_data ''SPY'')
         \<lparr>all_contracts := [(100, [(''C'', option_contract 100 ''C''), (''P'', option_contract 100 ''P'')])]\<rparr>"
  have o: "option_chain_data two_sides_failed = Some ?ocd"
    by (simp add: two_sides_failed_eq two_sides_registered_def)
  have m: "map_of (all_contracts ?ocd) 100 = Some [(''C'', option_contract 100 ''C''), (''P'', option_contract 100 ''P'')]"
    by simp
  have q: "queued_sides (contracts_to_delete two_sides_failed) 100 = [''C'', ''P'']"
    by (simp add: two_sides_failed_eq queued_sides_def)
  from remove_contracts_keeps_strikes [OF o] obtain ac' where
    r: "remove_contracts two_sides_failed =
          Inr (two_sides_failed\<lparr>option_chain_data := Some (?ocd\<lparr>all_contracts := ac'\<rparr>),
                                 contracts_to_delete := []\<rparr>)"
      "map fst ac' = map fst (all_contracts ?ocd)"
    and f: "\<forall>k m. map_of (all_contracts ?ocd) k = Some m \<longrightarrow>
                 map_of ac' k =
                   Some (filter (\<lambda>q. fst q \<notin> set (queued_sides (contracts_to_delete two_sides_failed) k)) m)"
    by blast
  from f m q have e: "map_of ac' 100 = Some []" by simp
  from r(2) have "map fst ac' = [100]" by simp
  then obtain v where "ac' = [(100, v)]" by (cases ac') auto
  with e have "ac' = [(100, [])]" by simp
  with r(1) have run: "remove_contracts two_sides_failed =
           Inr (two_sides_failed\<lparr>option_chain_data := Some (?ocd\<lparr>all_contracts := [(100, [])]\<rparr>),
                                  contracts_to_delete := []\<rparr>)"
    by simp
  from o m q run have all: "option_chain_data two_sides_failed = Some ?ocd
      \<and> map_of (all_contracts ?ocd) 100
          = Some [(''C'', option_contract 100 ''C''), (''P'', option_contract 100 ''P'')]
      \<and> queued_sides (contracts_to_delete two_sides_failed) 100 = [''C'', ''P'']
      \<and> remove_contracts two_sides_failed =
           Inr (two_sides_failed\<lparr>option_chain_data := Some (?ocd\<lparr>all_contracts := [(100, [])]\<rparr>),
                                  contracts_to_delete := []\<rparr>)"
    by (intro conjI)
  show ?thesis by (rule exI [where x = "?ocd"], rule all)
qed

section \<open>The reference price\<close>











section \<open>The pacing gate opens only under its thresholds\<close>

lemma deliver_queue: "deliver s ev = Inr s' \<Longrightarrow> sent_time_queue s' = sent_time_queue s"
proof (cases ev)
  case (HistoricalData rid b)
  assume "deliver s ev = Inr s'"
  with HistoricalData show ?thesis
    by (cases "cls s")
       (auto simp: historicalData_def OPT_historicalData_def plain_historicalData_def
          write_to_file_def then_do_def split: sum.splits option.splits if_splits)
next
  case (HistoricalDataEnd rid)
  assume "deliver s ev = Inr s'"
  with HistoricalDataEnd show ?thesis
    by (auto simp: historicalDataEnd_def then_do_def split: sum.splits option.splits if_splits)
next
  case (ContractDetails rid c)
  assume "deliver s ev = Inr s'"
  with ContractDetails show ?thesis
    by (auto simp: contractDetails_def split: option.splits if_splits)
next
  case (ContractDetailsEnd rid)
  assume "deliver s ev = Inr s'"
  with ContractDetailsEnd show ?thesis
    by (auto simp: contractDetailsEnd_def split: option.splits if_splits)
next
  case (Error rid code msg)
  assume "deliver s ev = Inr s'"
  with Error show ?thesis
    by (auto simp: error_def then_do_def split: sum.splits option.splits if_splits list.splits)
qed

lemma dispatch_queue: "sent_time_queue (dispatch s ev) = sent_time_queue s"
  by (cases "deliver s ev") (simp_all add: dispatch_def deliver_queue)

lemma foldl_dispatch_queue: "sent_time_queue (foldl dispatch s evs) = sent_time_queue s"
  by (induction evs arbitrary: s) (simp_all add: dispatch_queue)

lemma sleep_queue: "sent_time_queue (sleep s t) = sent_time_queue s"
  by (simp add: sleep_def foldl_dispatch_queue)

lemma wait_open_result:
  "wait_open s ts = Some (s', rest) \<Longrightarrow>
   open_requests s' \<le> 49 \<and> sent_time_queue s' = sent_time_queue s"
  by (induction s ts rule: wait_open.induct) (auto simp: sleep_queue split: if_splits)

lemma trim_queue_result:
  "trim_queue s ts = Some (s', rest) \<Longrightarrow> length (sent_time_queue s') \<le> 58"
  by (induction s ts rule: trim_queue.induct) (auto split: if_splits)

lemma in_window_le: "length (in_window s) \<le> length (sent_time_queue s)"
  by (simp add: in_window_def)

text \<open>
  Claim C1, as amended. Whatever the response thread does while the gate polls (any
  schedule of ticks, each with any events), \<open>check_pacing_violations\<close> returns only in a
  state with at most 58 entries in the sent-time queue, hence at most 58 entries inside
  the ten-minute window, and at most 49 open requests; and with more than 58 entries in
  the queue or more than 49 open requests it has not returned before its next sleep.
  These are the rule "more than R - 2 entries, or at least C open" for R = 60 and
  C = 50, the limits the function's docstring states.
\<close>

theorem pacing_gate_thresholds:
  "(check_pacing_violations app ts = Some (s', rest) \<longrightarrow>
      length (sent_time_queue s') \<le> 58 \<and> length (in_window s') \<le> 58 \<and> open_requests s' \<le> 49)
   \<and> (length (sent_time_queue app) > 58 \<or> open_requests app > 49 \<longrightarrow>
        check_pacing_violations app [] = None)"
proof (rule conjI; rule impI)
  assume "check_pacing_violations app ts = Some (s', rest)"
  then obtain s1 ts1 s2 ts2 where
    "trim_queue s1 ts1 = Some (s2, ts2)" and w: "wait_open s2 ts2 = Some (s', rest)"
    by (auto simp: check_pacing_violations_def split: option.splits)
  from trim_queue_result [OF this(1)] wait_open_result [OF w]
  have "length (sent_time_queue s') \<le> 58 \<and> open_requests s' \<le> 49" by simp
  with in_window_le [of s'] show "length (sent_time_queue s') \<le> 58 \<and> length (in_window s') \<le> 58
      \<and> open_requests s' \<le> 49"
    by simp
next
  assume "length (sent_time_queue app) > 58 \<or> open_requests app > 49"
  then show "check_pacing_violations app [] = None"
    by (auto simp: check_pacing_violations_def split: option.splits if_splits)
qed

lemma gate_state_passes:
  "n \<le> 58 \<Longrightarrow> k \<le> 49 \<Longrightarrow> check_pacing_violations (gate_state n k) [] = Some (gate_state n k, [])"
  by (simp add: check_pacing_violations_def gate_state_def init_ibapi_def)

text \<open>
  Claim C1 as stated, with R = 58 and C = 49, fails: with 57 requests sent inside the
  window (more than R - 2 = 56) and 49 open requests (at least C) the gate returns at
  once.
\<close>

theorem gate_opens_at_57_sent_49_open:
  "check_pacing_violations (gate_state 57 49) [] = Some (gate_state 57 49, [])
   \<and> length (in_window (gate_state 57 49)) = 57 \<and> (57::nat) > 58 - 2
   \<and> open_requests (gate_state 57 49) = 49"
  by (simp add: gate_state_passes) (simp add: gate_state_def in_window_def init_ibapi_def minutes_def)

theorem pacing_gate_thresholds_witness:
  "check_pacing_violations (gate_state 58 49) [] = Some (gate_state 58 49, [])
   \<and> length (sent_time_queue (gate_state 58 49)) \<le> 58 \<and> open_requests (gate_state 58 49) \<le> 49
   \<and> length (sent_time_queue (gate_state 59 0)) > 58
   \<and> check_pacing_violations (gate_state 59 0) [] = None
   \<and> open_requests (gate_state 0 50) > 49
   \<and> check_pacing_violations (gate_state 0 50) [] = None"
proof -
  have p: "check_pacing_violations (gate_state 58 49) [] = Some (gate_state 58 49, [])"
    by (simp add: gate_state_passes)
  from pacing_gate_thresholds [of "gate_state 58 49" "[]" "gate_state 58 49" "[]"] p
  have a: "length (sent_time_queue (gate_state 58 49)) \<le> 58 \<and> open_requests (gate_state 58 49) \<le> 49"
    by simp
  have q: "length (sent_time_queue (gate_state 59 0)) > 58" by (simp add: gate_state_def)
  from pacing_gate_thresholds [of "gate_state 59 0"] q
  have b: "check_pacing_violations (gate_state 59 0) [] = None" by simp
  have o: "open_requests (gate_state 0 50) > 49" by (simp add: gate_state_def)
  from pacing_gate_thresholds [of "gate_state 0 50"] o
  have c: "check_pacing_violations (gate_state 0 50) [] = None" by simp
  from p a q b o c show ?thesis by simp
qed

section \<open>Time buckets\<close>

lemma minutes_add: "minutes (a + b) = minutes a + minutes b"
  by (simp add: minutes_def algebra_simps)

lemma minutes_pos: "0 < ri \<Longrightarrow> 0 < minutes ri"
  by (simp add: minutes_def)

lemma minutes_0: "minutes 0 = 0"
  by (simp add: minutes_def)

lemma walk_back_closed:
  assumes ri: "0 < ri" and td: "timedelta_ok ri"
    and lo: "datetime_min \<le> start - minutes ri"
  shows "start \<le> tmp \<Longrightarrow> tmp \<le> datetime_max \<Longrightarrow>
         \<exists>k. walk_back tmp start ri = Some (Inr (tmp - minutes (int k * ri)))
            \<and> tmp - minutes (int k * ri) - start \<le> minutes ri
            \<and> (\<forall>j<k. tmp - minutes (int j * ri) - start > minutes ri)"
proof (induction "nat (tmp - start)" arbitrary: tmp rule: less_induct)
  case less
  from less.prems lo minutes_pos [OF ri] have ok: "datetime_ok (tmp - minutes ri)"
    unfolding datetime_ok_def by linarith
  show ?case
  proof (cases "tmp - minutes ri > start")
    case False
    with td ok have "walk_back tmp start ri = Some (Inr tmp)"
      by (subst walk_back.simps) simp
    with False have "walk_back tmp start ri = Some (Inr (tmp - minutes (int 0 * ri)))
            \<and> tmp - minutes (int 0 * ri) - start \<le> minutes ri
            \<and> (\<forall>j<(0::nat). tmp - minutes (int j * ri) - start > minutes ri)"
      by (simp add: minutes_0)
    then show ?thesis by blast
  next
    case True
    let ?t = "tmp - minutes ri"
    from True minutes_pos [OF ri] have smaller: "nat (?t - start) < nat (tmp - start)" by linarith
    from True have ge: "start \<le> ?t" by simp
    from less.prems(2) minutes_pos [OF ri] have le: "?t \<le> datetime_max" by linarith
    from less.hyps [OF smaller ge le] obtain k where
      k: "walk_back ?t start ri = Some (Inr (?t - minutes (int k * ri)))"
        "?t - minutes (int k * ri) - start \<le> minutes ri"
        "\<forall>j<k. ?t - minutes (int j * ri) - start > minutes ri"
      by blast
    have shift: "?t - minutes (int j * ri) = tmp - minutes (int (Suc j) * ri)" for j
      by (simp add: minutes_def algebra_simps)
    from True td ok have w: "walk_back tmp start ri = walk_back ?t start ri"
      by (subst walk_back.simps) simp
    have all: "\<forall>j<Suc k. tmp - minutes (int j * ri) - start > minutes ri"
    proof (intro allI impI)
      fix j assume j: "j < Suc k"
      show "tmp - minutes (int j * ri) - start > minutes ri"
      proof (cases j)
        case 0
        with True show ?thesis by (simp add: minutes_0)
      next
        case (Suc i)
        with j have "i < k" by simp
        with k(3) have "?t - minutes (int i * ri) - start > minutes ri" by blast
        with Suc shift [of i] show ?thesis by simp
      qed
    qed
    from w k(1) k(2) shift [of k] all
    have "walk_back tmp start ri = Some (Inr (tmp - minutes (int (Suc k) * ri)))
            \<and> tmp - minutes (int (Suc k) * ri) - start \<le> minutes ri
            \<and> (\<forall>j<Suc k. tmp - minutes (int j * ri) - start > minutes ri)"
      by simp
    then show ?thesis by blast
  qed
qed

lemma bucket_loop_full:
  assumes ri: "0 < ri" and td: "timedelta_ok ri"
    and hi: "e + minutes ri \<le> datetime_max"
  shows "datetime_min \<le> q \<Longrightarrow>
         \<exists>n. bucket_loop q e ri ri acc
               = Some (Inr (acc @ map (\<lambda>i. (q + minutes (int i * ri), ri)) [0..<n]))
            \<and> (0 < n \<longrightarrow> q + minutes (int (n - 1) * ri) < e)
            \<and> e \<le> q + minutes (int n * ri)"
proof (induction "nat (e - q)" arbitrary: q acc rule: less_induct)
  case less
  show ?case
  proof (cases "q < e")
    case False
    then have "bucket_loop q e ri ri acc = Some (Inr acc)" by (subst bucket_loop.simps) simp
    with False have "bucket_loop q e ri ri acc
              = Some (Inr (acc @ map (\<lambda>i. (q + minutes (int i * ri), ri)) [0..<0]))
            \<and> (0 < (0::nat) \<longrightarrow> q + minutes (int (0 - 1) * ri) < e)
            \<and> e \<le> q + minutes (int 0 * ri)"
      by (simp add: minutes_0)
    then show ?thesis by blast
  next
    case True
    let ?q = "q + minutes ri"
    from True less.prems hi minutes_pos [OF ri] have ok: "datetime_ok ?q"
      unfolding datetime_ok_def by linarith
    from True minutes_pos [OF ri] have smaller: "nat (e - ?q) < nat (e - q)" by linarith
    from less.prems minutes_pos [OF ri] have ge: "datetime_min \<le> ?q" by linarith
    from less.hyps [OF smaller ge, of "acc @ [(q, ri)]"] obtain n where
      n: "bucket_loop ?q e ri ri (acc @ [(q, ri)])
            = Some (Inr ((acc @ [(q, ri)]) @ map (\<lambda>i. (?q + minutes (int i * ri), ri)) [0..<n]))"
        "0 < n \<longrightarrow> ?q + minutes (int (n - 1) * ri) < e"
        "e \<le> ?q + minutes (int n * ri)"
      by blast
    have shift: "?q + minutes (int i * ri) = q + minutes (int (Suc i) * ri)" for i
      by (simp add: minutes_def algebra_simps)
    from True td ok have w: "bucket_loop q e ri ri acc = bucket_loop ?q e ri ri (acc @ [(q, ri)])"
      by (subst bucket_loop.simps) simp
    have m: "(q, ri) # map (\<lambda>i. (?q + minutes (int i * ri), ri)) [0..<n]
        = map (\<lambda>i. (q + minutes (int i * ri), ri)) [0..<Suc n]"
    proof -
      have "[0..<Suc n] = 0 # map Suc [0..<n]"
        by (simp add: upt_conv_Cons map_Suc_upt del: upt_Suc)
      then show ?thesis
        by (simp add: minutes_0 shift comp_def del: upt_Suc)
    qed
    have lt: "q + minutes (int (Suc n - 1) * ri) < e"
    proof (cases n)
      case 0
      with True show ?thesis by (simp add: minutes_0)
    next
      case (Suc i)
      with n(2) shift [of i] show ?thesis by simp
    qed
    from w n(1) n(3) m shift [of n] lt
    have "bucket_loop q e ri ri acc
              = Some (Inr (acc @ map (\<lambda>i. (q + minutes (int i * ri), ri)) [0..<Suc n]))
            \<and> (0 < Suc n \<longrightarrow> q + minutes (int (Suc n - 1) * ri) < e)
            \<and> e \<le> q + minutes (int (Suc n) * ri)"
      by (simp del: upt_Suc)
    then show ?thesis by blast
  qed
qed

lemma hour_minute_split:
  fixes a :: int
  shows "a div 3600000000 * 3600000000 + (a mod 3600000000) div 60000000 * 60000000
         = 60000000 * (a div 60000000)"
proof -
  have H: "(3600000000::int) = 60000000 * 60" by simp
  have d: "a div 3600000000 = (a div 60000000) div 60"
    unfolding H by (rule zdiv_zmult2_eq) simp
  have m: "a mod 3600000000 = 60000000 * ((a div 60000000) mod 60) + a mod 60000000"
    unfolding H by (rule zmod_zmult2_eq) simp
  have r: "(60000000 * ((a div 60000000) mod 60) + a mod 60000000) div 60000000
      = (a div 60000000) mod 60"
    by simp
  define u where "u = a div 60000000"
  have "u = u div 60 * 60 + u mod 60" by simp
  then have "60000000 * u = u div 60 * 3600000000 + (u mod 60) * 60000000" by linarith
  then show ?thesis unfolding d m r u_def by simp
qed

lemma minute_of_day_range: "0 \<le> minute_of_day t \<and> minute_of_day t < 1440"
proof -
  have "0 \<le> t mod 86400000000" "t mod 86400000000 < 86400000000" by simp_all
  then show ?thesis unfolding minute_of_day_def by (simp add: div_less_iff_less_mult pos_imp_zdiv_nonneg_iff)
qed

lemma regroup:
  fixes x :: int
  assumes "a + b = c"
  shows "x - y + a + b + z = x - y + z + c"
  using assms by simp

lemma replace_hm_eq:
  "replace_hm d (hour t) (minute t)
     = d - d mod 86400000000 + d mod 60000000 + minutes (minute_of_day t)"
proof -
  have "(3600000000::int) dvd 86400000000" by simp
  then have mm: "(t mod 86400000000) mod 3600000000 = t mod 3600000000"
    by (rule mod_mod_cancel)
  have hm: "hour t * 3600000000 + minute t * 60000000 = minute_of_day t * 60000000"
    unfolding hour_def minute_def minute_of_day_def
    using hour_minute_split [of "t mod 86400000000", unfolded mm]
    by (simp only: mult.commute)
  show ?thesis
    unfolding replace_hm_def minutes_def by (rule regroup [OF hm])
qed

lemma interval_of_minutes:
  assumes "0 \<le> x" and "x < 1440"
  shows "td_seconds (minutes x) div 60 = x"
proof -
  have "minutes x div 1000000 = 60 * x" by (simp add: minutes_def)
  moreover from assms have "(60 * x) mod 86400 = 60 * x" by simp
  ultimately show ?thesis by (simp add: td_seconds_def)
qed

lemma timedelta_ok_in_range:
  assumes "0 < ri" and "minutes ri \<le> datetime_max - datetime_min"
  shows "timedelta_ok ri"
proof -
  from assms(2) have "ri * 60000000 \<le> 315537897599999999"
    by (simp add: minutes_def datetime_max_def datetime_min_def)
  then have "ri \<le> 5258964959" by linarith
  then have "ri div 1440 \<le> 5258964959 div 1440" by (intro zdiv_mono1) simp_all
  then have "ri div 1440 \<le> 999999999" by simp
  moreover from assms(1) have "0 \<le> ri div 1440"
    by (simp add: pos_imp_zdiv_nonneg_iff)
  ultimately show ?thesis by (simp add: timedelta_ok_def)
qed

lemma get_times_and_interval_closed:
  assumes ri: "0 < ri"
    and le: "replace_hm d (hour start_t) (minute start_t) \<le> replace_hm d (hour end_t) (minute end_t)"
    and lo: "datetime_min \<le> replace_hm d (hour start_t) (minute start_t) - minutes ri"
    and hi: "replace_hm d (hour end_t) (minute end_t) + minutes 5 + minutes ri \<le> datetime_max"
  shows "\<exists>k isz q. get_times_and_interval start_t end_t d ri
              = Some (Inr (replace_hm d (hour end_t) (minute end_t) + minutes 5, isz, q))
          \<and> q = replace_hm d (hour end_t) (minute end_t) - minutes (int k * ri)
          \<and> q - replace_hm d (hour start_t) (minute start_t) \<le> minutes ri
          \<and> (\<forall>j<k. replace_hm d (hour end_t) (minute end_t) - minutes (int j * ri)
                    - replace_hm d (hour start_t) (minute start_t) > minutes ri)
          \<and> 0 \<le> isz
          \<and> q - minutes isz = replace_hm d (hour start_t) (minute start_t)"
proof -
  let ?E = "replace_hm d (hour end_t) (minute end_t)"
  let ?S = "replace_hm d (hour start_t) (minute start_t)"
  have five: "0 < minutes 5" by (simp add: minutes_def)
  from le lo hi five minutes_pos [OF ri] have "minutes ri \<le> datetime_max - datetime_min"
    by linarith
  from timedelta_ok_in_range [OF ri this] have td: "timedelta_ok ri" .
  from hi five minutes_pos [OF ri] have Emax: "?E \<le> datetime_max" by linarith
  from walk_back_closed [OF ri td lo le Emax] obtain k where
    k: "walk_back ?E ?S ri = Some (Inr (?E - minutes (int k * ri)))"
      "?E - minutes (int k * ri) - ?S \<le> minutes ri"
      "\<forall>j<k. ?E - minutes (int j * ri) - ?S > minutes ri"
    by blast
  let ?q = "?E - minutes (int k * ri)"
  let ?x = "minute_of_day end_t - minute_of_day start_t - int k * ri"
  have diff: "?q - ?S = minutes ?x"
    by (simp add: replace_hm_eq minutes_def algebra_simps)
  have nonneg: "0 \<le> ?q - ?S"
  proof (cases k)
    case 0
    with le show ?thesis by (simp add: minutes_0)
  next
    case (Suc i)
    with k(3) have "?E - minutes (int i * ri) - ?S > minutes ri" by simp
    moreover have "?E - minutes (int i * ri) - minutes ri = ?q"
      using Suc by (simp add: minutes_def algebra_simps)
    ultimately show ?thesis by linarith
  qed
  with diff have x0: "0 \<le> ?x" by (simp add: minutes_def)
  have "0 \<le> int k * ri" using ri by simp
  with minute_of_day_range [of end_t] minute_of_day_range [of start_t] have x1: "?x < 1440"
    by linarith
  from interval_of_minutes [OF x0 x1] diff have isz: "td_seconds (?q - ?S) div 60 = ?x" by simp
  from le lo hi five minutes_pos [OF ri] have grace: "datetime_ok (?E + minutes 5)"
    unfolding datetime_ok_def by linarith
  from k(1) isz grace
  have "get_times_and_interval start_t end_t d ri = Some (Inr (?E + minutes 5, ?x, ?q))"
    by (simp add: get_times_and_interval_def and_then_def)
  moreover from diff have "?q - minutes ?x = ?S" by simp
  ultimately show ?thesis using k(2) k(3) x0 by blast
qed

text \<open>
  Claim C5, as amended. The bucket length is positive, the session start is not after
  the session end, and the session with one bucket length before its start and one after
  its close plus five minutes lies inside the range of \<^verbatim>\<open>datetime\<close>. Then
  \<open>get_times_and_interval\<close> returns, and the buckets that it and the loop of \<open>main\<close>
  produce are these. From the session close the query time walks back \<open>k\<close> full
  increments, each taken while the span left to the session start is longer than one
  increment, and stops at \<open>q\<close> where that span is no longer than one increment. The
  first bucket ends at \<open>q\<close> and has the length of the remainder (between 0 and the
  configured length), so it starts at the session start. The buckets after it have the
  configured length and end at \<open>q\<close> plus 1, 2, ..., \<open>n\<close> increments, where \<open>n\<close> is the
  last step that stays before the session close plus five minutes. For 09:30-16:00 and
  60 minutes the buckets end at 10:00, 11:00, ..., 16:00 and the first is 30 minutes long
  (\<open>session_buckets\<close>).
\<close>

theorem buckets_walk_back_then_forward:
  assumes "0 < ri"
    and "replace_hm d (hour start_t) (minute start_t) \<le> replace_hm d (hour end_t) (minute end_t)"
    and "datetime_min \<le> replace_hm d (hour start_t) (minute start_t) - minutes ri"
    and "replace_hm d (hour end_t) (minute end_t) + minutes 5 + minutes ri \<le> datetime_max"
  shows "\<exists>k n isz q.
           q = replace_hm d (hour end_t) (minute end_t) - minutes (int k * ri)
         \<and> q - replace_hm d (hour start_t) (minute start_t) \<le> minutes ri
         \<and> (\<forall>j<k. replace_hm d (hour end_t) (minute end_t) - minutes (int j * ri)
                    - replace_hm d (hour start_t) (minute start_t) > minutes ri)
         \<and> 0 \<le> isz \<and> isz \<le> ri
         \<and> q - minutes isz = replace_hm d (hour start_t) (minute start_t)
         \<and> get_times_and_interval start_t end_t d ri
              = Some (Inr (replace_hm d (hour end_t) (minute end_t) + minutes 5, isz, q))
         \<and> buckets start_t end_t d ri
              = Some (Inr ((q, isz) # map (\<lambda>i. (q + minutes (int (Suc i) * ri), ri)) [0..<n]))
         \<and> q + minutes (int n * ri) < replace_hm d (hour end_t) (minute end_t) + minutes 5
         \<and> replace_hm d (hour end_t) (minute end_t) + minutes 5 \<le> q + minutes (int (Suc n) * ri)"
proof -
  let ?E = "replace_hm d (hour end_t) (minute end_t)"
  let ?S = "replace_hm d (hour start_t) (minute start_t)"
  from get_times_and_interval_closed [OF assms] obtain k isz q where
    g: "get_times_and_interval start_t end_t d ri = Some (Inr (?E + minutes 5, isz, q))"
    and q: "q = ?E - minutes (int k * ri)" "q - ?S \<le> minutes ri"
      "\<forall>j<k. ?E - minutes (int j * ri) - ?S > minutes ri" "0 \<le> isz" "q - minutes isz = ?S"
    by blast
  have five: "0 < minutes 5" by (simp add: minutes_def)
  have m: "0 < minutes ri" by (rule minutes_pos [OF assms(1)])
  from assms(2) assms(3) assms(4) five m have "minutes ri \<le> datetime_max - datetime_min"
    by linarith
  from timedelta_ok_in_range [OF assms(1) this] have td: "timedelta_ok ri" .
  have "0 \<le> minutes (int k * ri)" using assms(1) by (simp add: minutes_def)
  with five q(1) have qE: "q < ?E + minutes 5" by linarith
  from q(4) have "0 \<le> minutes isz" by (simp add: minutes_def)
  with q(5) have qS: "?S \<le> q" by linarith
  from qS assms(3) m have qmin: "datetime_min \<le> q + minutes ri" by linarith
  from qE assms(4) have "q + minutes ri \<le> datetime_max" by linarith
  with qmin have ok: "datetime_ok (q + minutes ri)" by (simp add: datetime_ok_def)
  from bucket_loop_full [OF assms(1) td assms(4) qmin, of "[(q, isz)]"] obtain n where
    n: "bucket_loop (q + minutes ri) (?E + minutes 5) ri ri [(q, isz)]
          = Some (Inr ([(q, isz)] @ map (\<lambda>i. (q + minutes ri + minutes (int i * ri), ri)) [0..<n]))"
      "0 < n \<longrightarrow> q + minutes ri + minutes (int (n - 1) * ri) < ?E + minutes 5"
      "?E + minutes 5 \<le> q + minutes ri + minutes (int n * ri)"
    by blast
  have shift: "q + minutes ri + minutes (int i * ri) = q + minutes (int (Suc i) * ri)" for i
    by (simp add: minutes_def algebra_simps)
  from qE td ok have "bucket_loop q (?E + minutes 5) isz ri []
      = bucket_loop (q + minutes ri) (?E + minutes 5) ri ri [(q, isz)]"
    by (subst bucket_loop.simps) simp
  with g n(1) have b: "buckets start_t end_t d ri
      = Some (Inr ((q, isz) # map (\<lambda>i. (q + minutes (int (Suc i) * ri), ri)) [0..<n]))"
    by (simp add: buckets_def and_then_def shift)
  have lt: "q + minutes (int n * ri) < ?E + minutes 5"
  proof (cases n)
    case 0
    with qE show ?thesis by (simp add: minutes_0)
  next
    case (Suc i)
    with n(2) shift [of i] show ?thesis by simp
  qed
  from n(3) shift [of n] have ge: "?E + minutes 5 \<le> q + minutes (int (Suc n) * ri)" by simp
  from q(2) q(5) have "minutes isz \<le> minutes ri" by linarith
  then have small: "isz \<le> ri" by (simp add: minutes_def)
  from q small g b lt ge show ?thesis by blast
qed

lemma session_bounds:
  "replace_hm 0 (hour half_past_nine) (minute half_past_nine) = 34200000000
   \<and> replace_hm 0 (hour four_pm) (minute four_pm) = 57600000000"
  by (simp add: replace_hm_def hour_def minute_def half_past_nine_def four_pm_def)

lemma session_times:
  "get_times_and_interval half_past_nine four_pm 0 60 = Some (Inr (57900000000, 30, 36000000000))"
  by (simp add: get_times_and_interval_def and_then_def session_bounds walk_back.simps minutes_def
      td_seconds_def datetime_ok_def timedelta_ok_def datetime_min_def datetime_max_def)

lemma session_buckets:
  "buckets half_past_nine four_pm 0 60 =
     Some (Inr [(36000000000, 30), (39600000000, 60), (43200000000, 60), (46800000000, 60),
                (50400000000, 60), (54000000000, 60), (57600000000, 60)])"
  by (simp add: buckets_def and_then_def session_times bucket_loop.simps minutes_def
      datetime_ok_def timedelta_ok_def datetime_min_def datetime_max_def)

text \<open>With a bucket length of zero the walk back never returns.\<close>

lemma walk_back_zero_step:
  "walk_back t s r = Some y \<Longrightarrow> r = 0 \<and> s < t \<and> datetime_ok t \<longrightarrow> False"
proof (rule walk_back.raw_induct [where P = "\<lambda>t s r y. r = 0 \<and> s < t \<and> datetime_ok t \<longrightarrow> False"])
  fix w t s r y
  assume ih: "\<And>t s r y. w t s r = Some y \<Longrightarrow> r = 0 \<and> s < t \<and> datetime_ok t \<longrightarrow> False"
    and eq: "(if \<not> timedelta_ok r \<or> \<not> datetime_ok (t - minutes r) then Some (Inl OverflowError)
              else if s < t - minutes r then w (t - minutes r) s r else Some (Inr t)) = Some y"
  show "r = 0 \<and> s < t \<and> datetime_ok t \<longrightarrow> False"
  proof
    assume a: "r = 0 \<and> s < t \<and> datetime_ok t"
    with eq have "w t s 0 = Some y" by (simp add: minutes_def timedelta_ok_def)
    from ih [OF this] a show False by simp
  qed
qed

lemma walk_back_zero_never_returns:
  assumes "start < tmp" and "datetime_ok tmp"
  shows "walk_back tmp start 0 = None"
proof (cases "walk_back tmp start 0")
  case None
  then show ?thesis .
next
  case (Some y)
  from walk_back_zero_step [OF Some] assms show ?thesis by simp
qed

lemma zero_bucket_length_never_returns:
  "get_times_and_interval half_past_nine four_pm 0 0 = None
   \<and> buckets half_past_nine four_pm 0 0 = None"
proof -
  have "datetime_ok 57600000000"
    by (simp add: datetime_ok_def datetime_min_def datetime_max_def)
  then have "walk_back 57600000000 34200000000 0 = None"
    by (intro walk_back_zero_never_returns) simp_all
  then have "get_times_and_interval half_past_nine four_pm 0 0 = None"
    by (simp add: get_times_and_interval_def and_then_def session_bounds)
  then show ?thesis by (simp add: buckets_def and_then_def)
qed

text \<open>
  Claim C5 as stated, for every start time and end time, fails: for a session that
  starts at 16:00 and ends at 09:30 with buckets of 60 minutes, the walk back takes no
  step, \<open>get_times_and_interval\<close> returns a first bucket of 1050 minutes that ends at
  09:30 (the \<^verbatim>\<open>seconds\<close> of a negative \<^verbatim>\<open>timedelta\<close> wrap around the day), and
  that bucket is the only one. It is longer than the configured length and does not
  start at the session start. With a bucket length of zero no bucket is produced at all
  (\<open>zero_bucket_length_never_returns\<close>).
\<close>

theorem reversed_session_first_bucket:
  "get_times_and_interval four_pm half_past_nine 0 60
     = Some (Inr (34500000000, 1050, 34200000000))
   \<and> buckets four_pm half_past_nine 0 60 = Some (Inr [(34200000000, 1050)])
   \<and> replace_hm 0 (hour four_pm) (minute four_pm) = 57600000000
   \<and> 34200000000 - minutes 1050 \<noteq> (57600000000::int)
   \<and> (60::int) < 1050"
proof -
  have g: "get_times_and_interval four_pm half_past_nine 0 60
     = Some (Inr (34500000000, 1050, 34200000000))"
    by (simp add: get_times_and_interval_def and_then_def session_bounds walk_back.simps
        minutes_def td_seconds_def datetime_ok_def timedelta_ok_def datetime_min_def
        datetime_max_def)
  have b: "buckets four_pm half_past_nine 0 60 = Some (Inr [(34200000000, 1050)])"
    by (simp add: buckets_def and_then_def g bucket_loop.simps minutes_def
        datetime_ok_def timedelta_ok_def datetime_min_def datetime_max_def)
  from g b session_bounds show ?thesis by (simp add: minutes_def)
qed

theorem buckets_walk_back_then_forward_witness:
  "(0::int) < 60
   \<and> replace_hm 0 (hour half_past_nine) (minute half_past_nine)
       \<le> replace_hm 0 (hour four_pm) (minute four_pm)
   \<and> datetime_min \<le> replace_hm 0 (hour half_past_nine) (minute half_past_nine) - minutes 60
   \<and> replace_hm 0 (hour four_pm) (minute four_pm) + minutes 5 + minutes 60 \<le> datetime_max
   \<and> buckets half_past_nine four_pm 0 60 =
       Some (Inr [(36000000000, 30), (39600000000, 60), (43200000000, 60), (46800000000, 60),
                  (50400000000, 60), (54000000000, 60), (57600000000, 60)])
   \<and> (\<exists>k n isz q.
           q = replace_hm 0 (hour four_pm) (minute four_pm) - minutes (int k * 60)
         \<and> q - replace_hm 0 (hour half_past_nine) (minute half_past_nine) \<le> minutes 60
         \<and> 0 \<le> isz \<and> isz \<le> 60
         \<and> q - minutes isz = replace_hm 0 (hour half_past_nine) (minute half_past_nine)
         \<and> buckets half_past_nine four_pm 0 60
              = Some (Inr ((q, isz) # map (\<lambda>i. (q + minutes (int (Suc i) * 60), 60)) [0..<n]))
         \<and> q + minutes (int n * 60) < replace_hm 0 (hour four_pm) (minute four_pm) + minutes 5
         \<and> replace_hm 0 (hour four_pm) (minute four_pm) + minutes 5
             \<le> q + minutes (int (Suc n) * 60))"
proof -
  have h1: "(0::int) < 60" by simp
  have h2: "replace_hm 0 (hour half_past_nine) (minute half_past_nine)
       \<le> replace_hm 0 (hour four_pm) (minute four_pm)"
    by (simp add: session_bounds)
  have h3: "datetime_min \<le> replace_hm 0 (hour half_past_nine) (minute half_past_nine) - minutes 60"
    by (simp add: session_bounds datetime_min_def minutes_def)
  have h4: "replace_hm 0 (hour four_pm) (minute four_pm) + minutes 5 + minutes 60 \<le> datetime_max"
    by (simp add: session_bounds datetime_max_def minutes_def)
  from buckets_walk_back_then_forward [OF h1 h2 h3 h4]
  have "\<exists>k n isz q.
           q = replace_hm 0 (hour four_pm) (minute four_pm) - minutes (int k * 60)
         \<and> q - replace_hm 0 (hour half_past_nine) (minute half_past_nine) \<le> minutes 60
         \<and> 0 \<le> isz \<and> isz \<le> 60
         \<and> q - minutes isz = replace_hm 0 (hour half_past_nine) (minute half_past_nine)
         \<and> buckets half_past_nine four_pm 0 60
              = Some (Inr ((q, isz) # map (\<lambda>i. (q + minutes (int (Suc i) * 60), 60)) [0..<n]))
         \<and> q + minutes (int n * 60) < replace_hm 0 (hour four_pm) (minute four_pm) + minutes 5
         \<and> replace_hm 0 (hour four_pm) (minute four_pm) + minutes 5
             \<le> q + minutes (int (Suc n) * 60)"
    by blast
  with h1 h2 h3 h4 session_buckets show ?thesis by (intro conjI)
qed

section \<open>Pruning to the band around the money\<close>

lemma nearer_trans:
  "nearer_or_lower x a b \<Longrightarrow> nearer_or_lower x b c \<Longrightarrow> nearer_or_lower x a c"
  by (auto simp: nearer_or_lower_def)

lemma closer_cases: "closer x a b = a \<or> closer x a b = b"
  by (simp add: closer_def)

lemma closer_best: "nearer_or_lower x (closer x a b) a \<and> nearer_or_lower x (closer x a b) b"
  by (auto simp: closer_def nearer_or_lower_def)

lemma foldl_closer:
  "foldl (closer x) a rest \<in> set (a # rest)
   \<and> (\<forall>k \<in> set (a # rest). nearer_or_lower x (foldl (closer x) a rest) k)"
proof (induction rest arbitrary: a)
  case Nil
  then show ?case by (simp add: nearer_or_lower_def)
next
  case (Cons b rest)
  let ?r = "foldl (closer x) (closer x a b) rest"
  from Cons [of "closer x a b"] have
    mem: "?r \<in> set (closer x a b # rest)"
    and best: "\<forall>k \<in> set (closer x a b # rest). nearer_or_lower x ?r k"
    by simp_all
  from best have c: "nearer_or_lower x ?r (closer x a b)" by simp
  from c closer_best [of x a b] have "nearer_or_lower x ?r a" "nearer_or_lower x ?r b"
    by (blast intro: nearer_trans)+
  moreover from best have "\<forall>k \<in> set rest. nearer_or_lower x ?r k" by simp
  moreover from mem closer_cases [of x a b] have "?r \<in> set (a # b # rest)" by auto
  ultimately show ?case by simp
qed

lemma take_closest_nearest:
  assumes "ks \<noteq> []"
  shows "\<exists>a. take_closest ks x = Inr a \<and> a \<in> set ks \<and> (\<forall>k \<in> set ks. nearer_or_lower x a k)"
proof -
  from assms obtain a rest where ks: "ks = a # rest" by (cases ks) auto
  with foldl_closer [of x a rest] show ?thesis by (simp add: take_closest_def)
qed

lemma mark_far_zero: "ks \<noteq> [] \<Longrightarrow> mark_far 0 pct ks d = Inl ZeroDivisionError"
  by (cases ks) simp_all

lemma mark_far_keys:
  assumes "atm \<noteq> 0"
  shows "\<exists>d'. mark_far atm pct ks d = Inr d'
           \<and> set (map fst d') = set (map fst d) \<union> {k \<in> set ks. too_far atm pct k}
           \<and> (distinct (map fst d) \<longrightarrow> distinct (map fst d'))"
proof (induction ks arbitrary: d)
  case Nil
  then show ?case by simp
next
  case (Cons k ks)
  show ?case
  proof (cases "too_far atm pct k")
    case True
    from Cons [of "AList.update k [] d"] obtain d' where
      d': "mark_far atm pct ks (AList.update k [] d) = Inr d'"
        "set (map fst d') = set (map fst (AList.update k [] d)) \<union> {k \<in> set ks. too_far atm pct k}"
        "distinct (map fst (AList.update k [] d)) \<longrightarrow> distinct (map fst d')"
      by blast
    have "set (map fst (AList.update k [] d)) = insert k (set (map fst d))"
      by (auto simp: update_keys)
    with d' True assms distinct_update [of d k "[]"] show ?thesis by auto
  next
    case False
    from Cons [of d] obtain d' where
      "mark_far atm pct ks d = Inr d'"
      "set (map fst d') = set (map fst d) \<union> {k \<in> set ks. too_far atm pct k}"
      "distinct (map fst d) \<longrightarrow> distinct (map fst d')"
      by blast
    with False assms show ?thesis by auto
  qed
qed

lemma del_all_cases:
  "distinct ks \<Longrightarrow>
   del_all ks ac = (if set ks \<subseteq> fst ` set ac then Inr (filter (\<lambda>p. fst p \<notin> set ks) ac)
                    else Inl KeyError)"
proof (induction ks arbitrary: ac)
  case Nil
  then show ?case by simp
next
  case (Cons k ks)
  from Cons.prems have k: "k \<notin> set ks" "distinct ks" by auto
  show ?case
  proof (cases "k \<in> fst ` set ac")
    case False
    then show ?thesis by simp
  next
    case True
    have keys: "fst ` set (AList.delete k ac) = fst ` set ac - {k}"
      by (force simp: delete_filter)
    from k(1) have sub: "(set ks \<subseteq> fst ` set (AList.delete k ac)) = (set ks \<subseteq> fst ` set ac)"
      unfolding keys by blast
    have f: "filter (\<lambda>p. fst p \<notin> set ks) (AList.delete k ac)
        = filter (\<lambda>p. fst p \<notin> set (k # ks)) ac"
      by (simp add: delete_filter conj_commute)
    from Cons.IH [OF k(2), of "AList.delete k ac"] True sub f show ?thesis by simp
  qed
qed

lemma max_double_pos: "0 < max_double"
  by (simp add: max_double_def)

lemma round_double_0: "round_double 0 = 0"
  by (simp add: round_double_def)

text \<open>Where the difference and the quotient are doubles (nothing is rounded and
  nothing overflows) and the anchor is positive, the test of the code is the test of
  the band in exact arithmetic.\<close>

lemma too_far_exact:
  assumes "0 < atm" and "round_double (k - atm) = k - atm" and "\<bar>k - atm\<bar> \<le> max_double"
    and "round_double (\<bar>k - atm\<bar> / atm) = \<bar>k - atm\<bar> / atm" and "\<bar>k - atm\<bar> / atm \<le> max_double"
  shows "too_far atm pct k = beyond_band atm pct k"
proof -
  from assms(1) have "0 \<le> \<bar>k - atm\<bar> / atm" by simp
  then have eq: "\<bar>\<bar>k - atm\<bar> / atm\<bar> = \<bar>k - atm\<bar> / atm" by (rule abs_of_nonneg)
  from assms(3) have a: "(max_double < \<bar>k - atm\<bar>) = False" by simp
  from assms(5) have "\<not> max_double < \<bar>k - atm\<bar> / atm" by (rule leD)
  then have b: "(max_double < \<bar>k - atm\<bar> / atm) = False" by (rule eq_False [THEN iffD2])
  have "too_far atm pct k = (pct < \<bar>k - atm\<bar> / atm)"
    by (simp only: too_far_def Let_def assms(2) assms(4) eq a b if_False)
  also from assms(1) have "\<dots> = beyond_band atm pct k"
    by (simp add: beyond_band_def pos_less_divide_eq)
  finally show ?thesis .
qed

lemma too_far_anchor: "atm \<noteq> 0 \<Longrightarrow> too_far atm pct atm = (pct < 0)"
  using max_double_pos by (simp add: too_far_def round_double_0)

lemma too_far_100_110: "too_far 100 (1 / 20) 110"
proof -
  have d: "round_double 10 = 10" by code_simp
  have q: "round_double (1 / 10) = double_0_1" by code_simp
  show ?thesis by (simp add: too_far_def d q max_double_def double_0_1_def)
qed

lemma too_far_100_103: "\<not> too_far 100 double_0_03 103"
proof -
  have d: "round_double 3 = 3" by code_simp
  have q: "round_double (3 / 100) = double_0_03" by code_simp
  show ?thesis by (simp add: too_far_def d q max_double_def double_0_03_def)
qed

text \<open>
  Claim C4, as amended. The chain is not empty and the removal queue, a dict, has no
  strike twice. The anchor is a strike of the chain that is nearest to the reference
  price, the lower one on a tie. On an anchor of zero \<open>keep_close_strikes\<close> raises
  \<^verbatim>\<open>ZeroDivisionError\<close>; otherwise, when a strike that was queued before the call
  is not in the chain, it raises \<^verbatim>\<open>KeyError\<close>; otherwise it returns the object with
  the queue emptied and the chain replaced, and nothing else changed. The new chain is
  the old one sorted by strike, without the strikes for which the test of the code
  (\<open>too_far\<close>, in double arithmetic) holds and without the strikes that were queued;
  the strikes kept have their side maps as they were, so none is empty if none was, and
  they are in ascending order. For a positive anchor and where nothing is rounded, the
  test is that the distance from the anchor exceeds \<open>pct\<close> times the anchor
  (\<open>too_far_exact\<close>).
\<close>

theorem keep_close_strikes_outcome:
  assumes ocd: "option_chain_data s = Some ocd"
    and nonempty: "all_contracts ocd \<noteq> []"
    and queue: "distinct (map fst (contracts_to_delete s))"
  shows "\<exists>atm kept.
           take_closest (map fst (sort_key fst (all_contracts ocd))) (open_spot_price ocd) = Inr atm
         \<and> atm \<in> fst ` set (all_contracts ocd)
         \<and> (\<forall>k \<in> fst ` set (all_contracts ocd). nearer_or_lower (open_spot_price ocd) atm k)
         \<and> kept = filter (\<lambda>p. \<not> too_far atm pct (fst p) \<and> fst p \<notin> fst ` set (contracts_to_delete s))
                    (sort_key fst (all_contracts ocd))
         \<and> keep_close_strikes s pct =
             (if atm = 0 then Inl ZeroDivisionError
              else if \<not> fst ` set (contracts_to_delete s) \<subseteq> fst ` set (all_contracts ocd)
              then Inl KeyError
              else Inr (s\<lparr>option_chain_data :=
                            Some (ocd\<lparr>all_contracts := kept, is_defaultdict := False\<rparr>),
                          contracts_to_delete := []\<rparr>))
         \<and> sorted (map fst kept)
         \<and> ((\<forall>p \<in> set (all_contracts ocd). snd p \<noteq> []) \<longrightarrow> (\<forall>p \<in> set kept. snd p \<noteq> []))"
proof -
  let ?ordered = "sort_key fst (all_contracts ocd)"
  let ?keys = "map fst ?ordered"
  let ?kept = "filter (\<lambda>p. \<not> too_far atm pct (fst p) \<and> fst p \<notin> fst ` set (contracts_to_delete s)) ?ordered"
  have keys: "set ?keys = fst ` set (all_contracts ocd)" by simp
  from nonempty have ne: "?keys \<noteq> []" by (metis length_0_conv length_map length_sort)
  from take_closest_nearest [OF ne, of "open_spot_price ocd"] obtain atm where
    atm: "take_closest ?keys (open_spot_price ocd) = Inr atm" "atm \<in> set ?keys"
      "\<forall>k \<in> set ?keys. nearer_or_lower (open_spot_price ocd) atm k"
    by blast
  let ?kept = "filter (\<lambda>p. \<not> too_far atm pct (fst p) \<and> fst p \<notin> fst ` set (contracts_to_delete s)) ?ordered"
  let ?s' = "s\<lparr>option_chain_data := Some (ocd\<lparr>all_contracts := ?kept, is_defaultdict := False\<rparr>),
               contracts_to_delete := []\<rparr>"
  have run: "keep_close_strikes s pct =
             (if atm = 0 then Inl ZeroDivisionError
              else if \<not> fst ` set (contracts_to_delete s) \<subseteq> fst ` set (all_contracts ocd)
              then Inl KeyError else Inr ?s')"
  proof (cases "atm = 0")
    case True
    with ocd atm(1) mark_far_zero [OF ne] show ?thesis
      by (simp add: keep_close_strikes_def then_do_def Let_def)
  next
    case False
    from mark_far_keys [OF False, of pct ?keys "contracts_to_delete s"] queue obtain d where
      d: "mark_far atm pct ?keys (contracts_to_delete s) = Inr d"
        "set (map fst d) = set (map fst (contracts_to_delete s)) \<union> {k \<in> set ?keys. too_far atm pct k}"
        "distinct (map fst d)"
      by blast
    have sub: "(set (map fst d) \<subseteq> fst ` set ?ordered)
        = (fst ` set (contracts_to_delete s) \<subseteq> fst ` set (all_contracts ocd))"
      unfolding d(2) by auto
    have same: "filter (\<lambda>p. fst p \<notin> set (map fst d)) ?ordered = ?kept"
    proof (rule filter_cong)
      fix p assume "p \<in> set ?ordered"
      then have "fst p \<in> set ?keys" by (metis image_eqI set_map)
      then show "(fst p \<notin> set (map fst d))
          = (\<not> too_far atm pct (fst p) \<and> fst p \<notin> fst ` set (contracts_to_delete s))"
        unfolding d(2) by auto
    qed simp
    from del_all_cases [OF d(3), of ?ordered] sub same
    have del: "del_all (map fst d) ?ordered =
        (if fst ` set (contracts_to_delete s) \<subseteq> fst ` set (all_contracts ocd)
         then Inr ?kept else Inl KeyError)"
      by simp
    from ocd atm(1) d(1) del False show ?thesis
      by (simp add: keep_close_strikes_def then_do_def Let_def)
  qed
  have srt: "sorted (map fst ?kept)"
    by (rule sorted_filter) (rule sorted_sort_key)
  have full: "(\<forall>p \<in> set (all_contracts ocd). snd p \<noteq> []) \<longrightarrow> (\<forall>p \<in> set ?kept. snd p \<noteq> [])"
    by simp
  from atm(2) keys have mem: "atm \<in> fst ` set (all_contracts ocd)" by simp
  from atm(3) keys have best: "\<forall>k \<in> fst ` set (all_contracts ocd). nearer_or_lower (open_spot_price ocd) atm k"
    by simp
  have "take_closest ?keys (open_spot_price ocd) = Inr atm
         \<and> atm \<in> fst ` set (all_contracts ocd)
         \<and> (\<forall>k \<in> fst ` set (all_contracts ocd). nearer_or_lower (open_spot_price ocd) atm k)
         \<and> ?kept = ?kept
         \<and> keep_close_strikes s pct =
             (if atm = 0 then Inl ZeroDivisionError
              else if \<not> fst ` set (contracts_to_delete s) \<subseteq> fst ` set (all_contracts ocd)
              then Inl KeyError else Inr ?s')
         \<and> sorted (map fst ?kept)
         \<and> ((\<forall>p \<in> set (all_contracts ocd). snd p \<noteq> []) \<longrightarrow> (\<forall>p \<in> set ?kept. snd p \<noteq> []))"
    using atm(1) mem best run srt full by (intro conjI refl)
  then show ?thesis
    by (intro exI [where x = atm] exI [where x = ?kept])
qed

lemma small_chain_eq:
  "small_chain = chain_app 101 [(110, [(''C'', option_contract 110 ''C'')]),
       (100, [(''C'', option_contract 100 ''C''), (''P'', option_contract 100 ''P'')])]"
  by (simp add: small_chain_def chain_app_def)

lemma small_chain_sorted:
  "sort_key fst [(110::rat, [(''C'', option_contract 110 ''C'')]),
       (100, [(''C'', option_contract 100 ''C''), (''P'', option_contract 100 ''P'')])]
   = [(100, [(''C'', option_contract 100 ''C''), (''P'', option_contract 100 ''P'')]),
      (110, [(''C'', option_contract 110 ''C'')])]"
  by simp

lemma small_chain_pruned:
  "keep_close_strikes small_chain (1 / 20) =
     Inr (small_chain\<lparr>option_chain_data := Some ((new_option_chain_data ''SPY'')
         \<lparr>open_spot_price := 101,
          all_contracts := [(100, [(''C'', option_contract 100 ''C''), (''P'', option_contract 100 ''P'')])],
          all_contracts_fetched := True, is_defaultdict := False\<rparr>)\<rparr>)"
  by (simp add: keep_close_strikes_def small_chain_def opt_app_def init_ibapi_def then_do_def
      take_closest_def closer_def new_option_chain_data_def too_far_100_110 too_far_anchor)

text \<open>
  Claim C4 as stated, for every non-empty strike set, fails: on a chain whose only
  strike is 0, with the reference price 1, the anchor is 0 and the distance of the strike
  from it does not exceed \<open>pct\<close> times the anchor, so the strike is to be retained;
  \<open>keep_close_strikes\<close> raises \<^verbatim>\<open>ZeroDivisionError\<close> at the division by the anchor.
  With positive strikes the rounding of the quotient shows (\<open>band_edge_rounding\<close>): for
  the strikes 100 and 103, the reference price 100 and the band \<^verbatim>\<open>0.03\<close>, the
  distance 3 exceeds \<^verbatim>\<open>0.03\<close> times 100 (the double is below 3/100), and the code
  keeps the strike 103, because 3 / 100 is rounded to that double.
\<close>

theorem keep_close_strikes_zero_anchor:
  "keep_close_strikes (chain_app 1 [(0, [(''C'', option_contract 0 ''C'')])]) (1 / 20)
     = Inl ZeroDivisionError
   \<and> take_closest [0] 1 = Inr 0
   \<and> \<not> beyond_band 0 (1 / 20) 0"
  by (simp add: keep_close_strikes_def chain_app_def then_do_def take_closest_def
      beyond_band_def)

lemma band_edge_rounding:
  "keep_close_strikes (chain_app 100 [(100, [(''C'', option_contract 100 ''C'')]),
                                      (103, [(''C'', option_contract 103 ''C'')])]) double_0_03
     = Inr ((chain_app 100 [(100, [(''C'', option_contract 100 ''C'')]),
                            (103, [(''C'', option_contract 103 ''C'')])])
              \<lparr>option_chain_data := Some ((new_option_chain_data ''SPY'')
                 \<lparr>open_spot_price := 100,
                  all_contracts := [(100, [(''C'', option_contract 100 ''C'')]),
                                    (103, [(''C'', option_contract 103 ''C'')])],
                  all_contracts_fetched := True, is_defaultdict := False\<rparr>)\<rparr>)
   \<and> beyond_band 100 double_0_03 103"
proof -
  have "\<not> double_0_03 < 0" by (simp add: double_0_03_def)
  then show ?thesis
    by (simp add: keep_close_strikes_def chain_app_def opt_app_def init_ibapi_def then_do_def
        take_closest_def closer_def new_option_chain_data_def too_far_100_103 too_far_anchor
        beyond_band_def)
       (simp add: double_0_03_def)
qed

theorem keep_close_strikes_outcome_witness:
  "option_chain_data small_chain = Some ((new_option_chain_data ''SPY'')
         \<lparr>open_spot_price := 101,
          all_contracts := [(110, [(''C'', option_contract 110 ''C'')]),
                            (100, [(''C'', option_contract 100 ''C''), (''P'', option_contract 100 ''P'')])],
          all_contracts_fetched := True\<rparr>)
   \<and> distinct (map fst (contracts_to_delete small_chain))
   \<and> take_closest [100, 110] 101 = Inr 100
   \<and> keep_close_strikes small_chain (1 / 20) =
       Inr (small_chain\<lparr>option_chain_data := Some ((new_option_chain_data ''SPY'')
         \<lparr>open_spot_price := 101,
          all_contracts := [(100, [(''C'', option_contract 100 ''C''), (''P'', option_contract 100 ''P'')])],
          all_contracts_fetched := True, is_defaultdict := False\<rparr>),
          contracts_to_delete := []\<rparr>)"
proof -
  let ?ac = "[(110::rat, [(''C'', option_contract 110 ''C'')]),
       (100, [(''C'', option_contract 100 ''C''), (''P'', option_contract 100 ''P'')])]"
  let ?ocd = "(new_option_chain_data ''SPY'')
         \<lparr>open_spot_price := 101, all_contracts := ?ac, all_contracts_fetched := True\<rparr>"
  have ocd: "option_chain_data small_chain = Some ?ocd" by (simp add: small_chain_def)
  have nonempty: "all_contracts ?ocd \<noteq> []" by simp
  have q: "contracts_to_delete small_chain = []"
    by (simp add: small_chain_def opt_app_def init_ibapi_def)
  then have queue: "distinct (map fst (contracts_to_delete small_chain))" by simp
  from keep_close_strikes_outcome [OF ocd nonempty queue, of "1 / 20"]
  obtain atm kept where
    r: "take_closest (map fst (sort_key fst (all_contracts ?ocd))) (open_spot_price ?ocd) = Inr atm"
      "kept = filter (\<lambda>p. \<not> too_far atm (1 / 20) (fst p)
                          \<and> fst p \<notin> fst ` set (contracts_to_delete small_chain))
                (sort_key fst (all_contracts ?ocd))"
      "keep_close_strikes small_chain (1 / 20) =
             (if atm = 0 then Inl ZeroDivisionError
              else if \<not> fst ` set (contracts_to_delete small_chain) \<subseteq> fst ` set (all_contracts ?ocd)
              then Inl KeyError
              else Inr (small_chain\<lparr>option_chain_data :=
                            Some (?ocd\<lparr>all_contracts := kept, is_defaultdict := False\<rparr>),
                          contracts_to_delete := []\<rparr>))"
    by blast
  have tc: "take_closest [100, 110] 101 = Inr 100"
    by (simp add: take_closest_def closer_def)
  with r(1) have atm: "atm = 100" by simp
  from r(2) have kept: "kept
      = [(100, [(''C'', option_contract 100 ''C''), (''P'', option_contract 100 ''P'')])]"
    unfolding atm q by (simp add: too_far_100_110 too_far_anchor)
  from r(3) have run: "keep_close_strikes small_chain (1 / 20) =
       Inr (small_chain\<lparr>option_chain_data := Some ((new_option_chain_data ''SPY'')
         \<lparr>open_spot_price := 101,
          all_contracts := [(100, [(''C'', option_contract 100 ''C''), (''P'', option_contract 100 ''P'')])],
          all_contracts_fetched := True, is_defaultdict := False\<rparr>),
          contracts_to_delete := []\<rparr>)"
    unfolding atm kept q by simp
  from ocd queue tc run show ?thesis by (intro conjI)
qed

lemma set_update_subset: "set (AList.update k v al) \<subseteq> insert (k, v) (set al)"
  by (induction al) auto

lemma contractDetails_sides:
  assumes "contractDetails s rid c = Inr s'" and "option_chain_data s = Some ocd"
    and "\<forall>p \<in> set (all_contracts ocd). snd p \<noteq> []"
  shows "\<exists>ocd'. option_chain_data s' = Some ocd' \<and> (\<forall>p \<in> set (all_contracts ocd'). snd p \<noteq> [])"
proof (cases "rid = ALL_OPTION_CONTRACTS_DETAILS_REQ_ID")
  case False
  with assms show ?thesis by (simp add: contractDetails_def)
next
  case True
  have "\<exists>v. v \<noteq> []
      \<and> option_chain_data s' = Some (ocd\<lparr>all_contracts := AList.update (strike c) v (all_contracts ocd)\<rparr>)"
  proof (cases "map_of (all_contracts ocd) (strike c)")
    case None
    with True assms(1) assms(2) have "[(right c, c)] \<noteq> []
      \<and> option_chain_data s' = Some (ocd\<lparr>all_contracts :=
            AList.update (strike c) [(right c, c)] (all_contracts ocd)\<rparr>)"
      by (auto simp: contractDetails_def split: if_splits)
    then show ?thesis by blast
  next
    case (Some a)
    with True assms(1) assms(2) have "AList.update (right c) c a \<noteq> []
      \<and> option_chain_data s' = Some (ocd\<lparr>all_contracts :=
            AList.update (strike c) (AList.update (right c) c a) (all_contracts ocd)\<rparr>)"
      by (auto simp: contractDetails_def)
    then show ?thesis by blast
  qed
  then obtain v where v: "v \<noteq> []"
    and s': "option_chain_data s' = Some (ocd\<lparr>all_contracts := AList.update (strike c) v (all_contracts ocd)\<rparr>)"
    by blast
  from set_update_subset [of "strike c" v "all_contracts ocd"] v assms(3)
  have "\<forall>p \<in> set (AList.update (strike c) v (all_contracts ocd)). snd p \<noteq> []" by auto
  with s' show ?thesis by simp
qed

section \<open>A day that is skipped\<close>

lemma delete_key_mem: "(a, b) \<in> set (AList.delete k al) \<Longrightarrow> a \<in> fst ` set al"
  by (force simp: delete_filter)

lemma deliver_frame:
  assumes "deliver s ev = Inr s'"
  shows "requests s' = requests s \<and> same_window_and_registry s s'"
proof (cases ev)
  case (HistoricalData rid b)
  with assms show ?thesis
    by (cases "cls s")
       (auto simp: historicalData_def OPT_historicalData_def plain_historicalData_def
          write_to_file_def then_do_def same_window_and_registry_def
          split: sum.splits option.splits if_splits)
next
  case (HistoricalDataEnd rid)
  with assms show ?thesis
    by (auto simp: historicalDataEnd_def then_do_def same_window_and_registry_def
        dest: delete_key_mem split: sum.splits option.splits if_splits)
next
  case (ContractDetails rid c)
  with assms show ?thesis
    by (auto simp: contractDetails_def same_window_and_registry_def split: option.splits if_splits)
next
  case (ContractDetailsEnd rid)
  with assms show ?thesis
    by (auto simp: contractDetailsEnd_def same_window_and_registry_def split: option.splits if_splits)
next
  case (Error rid code msg)
  with assms show ?thesis
    by (auto simp: error_def then_do_def same_window_and_registry_def
        split: sum.splits option.splits if_splits list.splits)
qed

lemma frame_refl: "same_window_and_registry s s"
  by (simp add: same_window_and_registry_def)

lemma frame_trans:
  "same_window_and_registry a b \<Longrightarrow> same_window_and_registry b c \<Longrightarrow> same_window_and_registry a c"
  unfolding same_window_and_registry_def by (metis order_trans)

lemma dispatch_frame: "requests (dispatch s ev) = requests s \<and> same_window_and_registry s (dispatch s ev)"
  by (cases "deliver s ev") (simp_all add: dispatch_def deliver_frame frame_refl)

lemma foldl_dispatch_frame:
  "requests (foldl dispatch s evs) = requests s \<and> same_window_and_registry s (foldl dispatch s evs)"
proof (induction evs arbitrary: s)
  case Nil
  then show ?case by (simp add: frame_refl)
next
  case (Cons ev evs)
  from Cons [of "dispatch s ev"] dispatch_frame [of s ev] show ?case
    by (auto intro: frame_trans)
qed

lemma sleep_frame: "requests (sleep s t) = requests s \<and> same_window_and_registry s (sleep s t)"
proof -
  let ?s0 = "s\<lparr>clock := t_now t, connected := t_connected t\<rparr>"
  have "same_window_and_registry s ?s0" by (simp add: same_window_and_registry_def)
  with foldl_dispatch_frame [of ?s0 "t_events t"] show ?thesis
    by (auto simp: sleep_def intro: frame_trans)
qed

lemma wait_spot_frame:
  "wait_spot s ts = Some (Inr (s', rest)) \<Longrightarrow>
   requests s' = requests s \<and> same_window_and_registry s s'"
proof (induction s ts rule: wait_spot.induct)
  case (1 s)
  then show ?case by (auto simp: frame_refl split: option.splits if_splits)
next
  case (2 s t rest')
  show ?case
  proof (cases "option_chain_data s")
    case None
    with 2 show ?thesis by simp
  next
    case (Some ocd)
    show ?thesis
    proof (cases "open_spot_price ocd = -1")
      case True
      with 2 Some have "requests s' = requests (sleep s t) \<and> same_window_and_registry (sleep s t) s'"
        by simp
      with sleep_frame [of s t] show ?thesis by (auto intro: frame_trans)
    next
      case False
      with 2 Some show ?thesis by (auto simp: frame_refl)
    qed
  qed
qed

lemma wait_fetched_frame:
  "wait_fetched s ts = Some (Inr (s', rest)) \<Longrightarrow>
   requests s' = requests s \<and> same_window_and_registry s s'"
proof (induction s ts rule: wait_fetched.induct)
  case (1 s)
  then show ?case by (auto simp: frame_refl split: option.splits if_splits)
next
  case (2 s t rest')
  show ?case
  proof (cases "option_chain_data s")
    case None
    with 2 show ?thesis by simp
  next
    case (Some ocd)
    show ?thesis
    proof (cases "all_contracts_fetched ocd")
      case False
      with 2 Some have "requests s' = requests (sleep s t) \<and> same_window_and_registry (sleep s t) s'"
        by simp
      with sleep_frame [of s t] show ?thesis by (auto intro: frame_trans)
    next
      case True
      with 2 Some show ?thesis by (auto simp: frame_refl)
    qed
  qed
qed

lemma keep_close_strikes_frame:
  "keep_close_strikes s pct = Inr s' \<Longrightarrow>
   requests s' = requests s \<and> same_window_and_registry s s'"
  by (auto simp: keep_close_strikes_def then_do_def Let_def same_window_and_registry_def
      split: option.splits sum.splits)

lemma get_underline_open_price_frame:
  assumes "get_underline_open_price s asset d ts = Some (Inr (s', rest))"
  shows "requests s' = requests s @ reference_price_requests s asset d
         \<and> same_window_and_registry s s'"
proof -
  let ?r = "if \<not> (date_of d = date_of (clock s))
            then ReqHistoricalData OPEN_SPOT_PRICE_REQ_ID (get_asset_contract asset) d 60
                   ''1 min'' ''BID_ASK''
            else ReqMktData OPEN_SPOT_PRICE_REQ_ID (get_asset_contract asset)"
  let ?s1 = "s\<lparr>requests := requests s @ [?r]\<rparr>"
  from assms obtain s2 where w: "wait_spot ?s1 ts = Some (Inr (s2, rest))"
    and s': "s' = (if date_of d = date_of (clock s)
                   then s2\<lparr>requests := requests s2 @ [CancelMktData OPEN_SPOT_PRICE_REQ_ID]\<rparr>
                   else s2)"
    by (auto simp: get_underline_open_price_def and_then_def Let_def
        split: option.splits sum.splits if_splits)
  from wait_spot_frame [OF w] have f: "requests s2 = requests s @ [?r]"
    "same_window_and_registry ?s1 s2"
    by simp_all
  from f(2) have "same_window_and_registry s s2" by (simp add: same_window_and_registry_def)
  with s' have "same_window_and_registry s s'" by (simp add: same_window_and_registry_def)
  moreover from s' f(1) have "requests s' = requests s @ reference_price_requests s asset d"
    by (simp add: reference_price_requests_def)
  ultimately show ?thesis by simp
qed

lemma OPT_get_all_needed_contracts_frame:
  assumes "OPT_get_all_needed_contracts s asset d next_expiry config ts = Some (Inr (s', rest))"
  shows "\<exists>expiry. next_expiry = Some expiry
           \<and> requests s' = requests s
                @ reference_price_requests s asset
                    (replace_hm d (hour (start_time config)) (minute (start_time config)))
                @ [ReqContractDetails ALL_OPTION_CONTRACTS_DETAILS_REQ_ID
                     (get_ambiguous_option_contract expiry asset)]
           \<and> same_window_and_registry s s'"
proof -
  let ?s0 = "s\<lparr>option_chain_data := Some (new_option_chain_data asset), contracts_to_delete := []\<rparr>"
  let ?d = "replace_hm d (hour (start_time config)) (minute (start_time config))"
  from assms obtain expiry where e: "next_expiry = Some expiry"
    by (cases next_expiry) (auto simp: OPT_get_all_needed_contracts_def Let_def)
  let ?c = "ReqContractDetails ALL_OPTION_CONTRACTS_DETAILS_REQ_ID
              (get_ambiguous_option_contract expiry asset)"
  from assms e obtain s1 ts1 s2 ts2 where
    g: "get_underline_open_price ?s0 asset ?d ts = Some (Inr (s1, ts1))"
    and w: "wait_fetched (s1\<lparr>requests := requests s1 @ [?c]\<rparr>) ts1 = Some (Inr (s2, ts2))"
    and k: "keep_close_strikes s2 (pct_strikes_from_atm config) = Inr s'"
    by (auto simp: OPT_get_all_needed_contracts_def and_then_def Let_def
        split: option.splits sum.splits)
  from get_underline_open_price_frame [OF g]
  have f1: "requests s1 = requests s @ reference_price_requests s asset ?d"
    "same_window_and_registry ?s0 s1"
    by (simp_all add: reference_price_requests_def)
  from wait_fetched_frame [OF w]
  have f2: "requests s2 = requests s1 @ [?c]" "same_window_and_registry s1 s2"
    by (simp_all add: same_window_and_registry_def)
  from keep_close_strikes_frame [OF k]
  have f3: "requests s' = requests s2" "same_window_and_registry s2 s'" by simp_all
  have f0: "same_window_and_registry s ?s0" by (simp add: same_window_and_registry_def)
  from f0 f1(2) f2(2) f3(2) have "same_window_and_registry s s'"
    by (blast intro: frame_trans)
  with e f1(1) f2(1) f3(1) show ?thesis by simp
qed

text \<open>
  Claim C8, as amended. When the day's file exists and the user does not answer "yes",
  a round that gets as far as the check ends there (\<open>Skipped\<close>): no request was sent
  through \<open>send_historical_data_request\<close>, so the pacing window is as it was and the
  registry has no new entry (the response thread may have completed old ones
  meanwhile). An object that is not of the option kind has sent nothing at all and is
  unchanged. An option object has by then sent the reference-price query and the
  contract-details query, because \<open>get_all_needed_contracts\<close> runs before the check.
\<close>

theorem skipped_day_keeps_window_and_registry:
  assumes "file_exists" and "answer \<noteq> ''yes''"
    and "day_head app config asset d next_expiry file_exists answer ts = Some (Inr r)"
  shows "\<exists>s' rest. r = Skipped s' rest
           \<and> same_window_and_registry app s'
           \<and> (cls app \<noteq> OPT \<longrightarrow> s' = app)
           \<and> (cls app = OPT \<longrightarrow>
                (\<exists>expiry. next_expiry = Some expiry
                   \<and> requests s' = requests app
                        @ reference_price_requests app (fst (is_weekly_options asset))
                            (replace_hm d (hour (start_time config)) (minute (start_time config)))
                        @ [ReqContractDetails ALL_OPTION_CONTRACTS_DETAILS_REQ_ID
                             (get_ambiguous_option_contract expiry (fst (is_weekly_options asset)))]))"
proof -
  let ?base = "fst (is_weekly_options asset)"
  from assms(1) assms(2) have skip: "is_file_exists file_exists answer"
    by (simp add: is_file_exists_def)
  from assms(3) skip obtain s' rest where
    g: "get_all_needed_contracts app ?base d next_expiry config ts = Some (Inr (s', rest))"
    and r: "r = Skipped s' rest"
    by (auto simp: day_head_def and_then_def split: option.splits sum.splits prod.splits if_splits)
  show ?thesis
  proof (cases "cls app = OPT")
    case True
    with g have "OPT_get_all_needed_contracts app ?base d next_expiry config ts = Some (Inr (s', rest))"
      by (simp add: get_all_needed_contracts_def)
    from OPT_get_all_needed_contracts_frame [OF this] r True show ?thesis by blast
  next
    case False
    with g have "s' = app" by (cases "cls app") (simp_all add: get_all_needed_contracts_def)
    with r False show ?thesis by (simp add: frame_refl)
  qed
qed

lemma skip_run:
  "\<exists>s'. day_head skip_app skip_config ''SPY'' 0 (Some ''20200117'') True ''no'' skip_ticks
          = Some (Inr (Skipped s' []))
      \<and> requests s' =
          [ReqHistoricalData OPEN_SPOT_PRICE_REQ_ID (get_asset_contract ''SPY'') 34200000000 60
             ''1 min'' ''BID_ASK'',
           ReqContractDetails ALL_OPTION_CONTRACTS_DETAILS_REQ_ID
             (get_ambiguous_option_contract ''20200117'' ''SPY'')]"
proof -
  have base: "is_weekly_options ''SPY'' = (''SPY'', False)"
    by (simp add: is_weekly_options_def)
  have start: "replace_hm 0 (hour (start_time skip_config)) (minute (start_time skip_config)) = 34200000000"
    by (simp add: skip_config_def session_bounds)
  have chain: "\<exists>s'. OPT_get_all_needed_contracts skip_app ''SPY'' 0 (Some ''20200117'') skip_config skip_ticks
        = Some (Inr (s', []))
      \<and> requests s' =
          [ReqHistoricalData OPEN_SPOT_PRICE_REQ_ID (get_asset_contract ''SPY'') 34200000000 60
             ''1 min'' ''BID_ASK'',
           ReqContractDetails ALL_OPTION_CONTRACTS_DETAILS_REQ_ID
             (get_ambiguous_option_contract ''20200117'' ''SPY'')]"
    unfolding OPT_get_all_needed_contracts_def start
    by (simp add: get_underline_open_price_def and_then_def Let_def date_of_def skip_app_def
        init_ibapi_def new_option_chain_data_def skip_ticks_def sleep_def dispatch_def
        historicalData_def OPT_historicalData_def then_do_def IBapi_historicalData_def
        bar_closing_def contractDetails_def contractDetailsEnd_def option_contract_def
        OPEN_SPOT_PRICE_REQ_ID_def ALL_OPTION_CONTRACTS_DETAILS_REQ_ID_def
        keep_close_strikes_def take_closest_def skip_config_def too_far_anchor)
  have cls: "cls skip_app = OPT" by (simp add: skip_app_def init_ibapi_def)
  have times: "get_times_and_interval (start_time skip_config) (end_time skip_config) 0
      (request_interval skip_config) = Some (Inr (57900000000, 30, 36000000000))"
    by (simp add: skip_config_def session_times)
  from chain obtain s' where
    c: "OPT_get_all_needed_contracts skip_app ''SPY'' 0 (Some ''20200117'') skip_config skip_ticks
        = Some (Inr (s', []))"
    and q: "requests s' =
          [ReqHistoricalData OPEN_SPOT_PRICE_REQ_ID (get_asset_contract ''SPY'') 34200000000 60
             ''1 min'' ''BID_ASK'',
           ReqContractDetails ALL_OPTION_CONTRACTS_DETAILS_REQ_ID
             (get_ambiguous_option_contract ''20200117'' ''SPY'')]"
    by blast
  from c cls times base have "day_head skip_app skip_config ''SPY'' 0 (Some ''20200117'') True ''no'' skip_ticks
          = Some (Inr (Skipped s' []))"
    by (simp add: day_head_def get_all_needed_contracts_def and_then_def is_file_exists_def)
  with q show ?thesis by blast
qed

text \<open>
  Claim C8 as stated fails: on an option object, a day whose file exists and is not to
  be overwritten is skipped only after a reference-price query and a contract-details
  query have gone to the provider.
\<close>

theorem skipped_option_day_queries_provider:
  "\<exists>s'. day_head skip_app skip_config ''SPY'' 0 (Some ''20200117'') True ''no'' skip_ticks
          = Some (Inr (Skipped s' []))
      \<and> is_file_exists True ''no''
      \<and> requests skip_app = []
      \<and> requests s' =
          [ReqHistoricalData OPEN_SPOT_PRICE_REQ_ID (get_asset_contract ''SPY'') 34200000000 60
             ''1 min'' ''BID_ASK'',
           ReqContractDetails ALL_OPTION_CONTRACTS_DETAILS_REQ_ID
             (get_ambiguous_option_contract ''20200117'' ''SPY'')]"
proof -
  have "is_file_exists True ''no''" by (simp add: is_file_exists_def)
  moreover have "requests skip_app = []" by (simp add: skip_app_def init_ibapi_def)
  ultimately show ?thesis using skip_run by blast
qed

theorem skipped_day_keeps_window_and_registry_witness:
  "\<exists>s'. day_head skip_app skip_config ''SPY'' 0 (Some ''20200117'') True ''no'' skip_ticks
          = Some (Inr (Skipped s' []))
      \<and> sent_time_queue s' = sent_time_queue skip_app
      \<and> req_id_to_contract s' = []
      \<and> length (requests s') = 2"
proof -
  from skip_run obtain s0 where
    run: "day_head skip_app skip_config ''SPY'' 0 (Some ''20200117'') True ''no'' skip_ticks
          = Some (Inr (Skipped s0 []))"
    by blast
  have no: "''no'' \<noteq> ''yes''" by simp
  from skipped_day_keeps_window_and_registry [OF TrueI no run] obtain s' rest where
    r: "Skipped s0 [] = Skipped s' rest" "same_window_and_registry skip_app s'"
    and o: "cls skip_app = OPT \<longrightarrow>
                (\<exists>expiry. Some ''20200117'' = Some expiry
                   \<and> requests s' = requests skip_app
                        @ reference_price_requests skip_app (fst (is_weekly_options ''SPY''))
                            (replace_hm 0 (hour (start_time skip_config)) (minute (start_time skip_config)))
                        @ [ReqContractDetails ALL_OPTION_CONTRACTS_DETAILS_REQ_ID
                             (get_ambiguous_option_contract expiry (fst (is_weekly_options ''SPY'')))])"
    by blast
  from r(1) have eq: "s' = s0" by simp
  have cls: "cls skip_app = OPT" by (simp add: skip_app_def init_ibapi_def)
  have empty: "req_id_to_contract skip_app = []" "requests skip_app = []"
    by (simp_all add: skip_app_def init_ibapi_def)
  from r(2) empty(1) have a: "sent_time_queue s' = sent_time_queue skip_app \<and> req_id_to_contract s' = []"
    by (simp add: same_window_and_registry_def)
  from o cls empty(2) have b: "length (requests s') = 2"
    by (auto simp: reference_price_requests_def date_of_def skip_app_def init_ibapi_def
        skip_config_def session_bounds)
  from run a b eq show ?thesis by blast
qed

end
